theory Spec2Isabelle
  imports Main "HOL-Library.Sublist"
begin

section \<open>Python values used by the parser\<close>

text \<open>
  The module \<^verbatim>\<open>generic_parser_copy.py\<close> works on Python 3 \<^verbatim>\<open>str\<close> values.  A character
  of the model is a code point below 256, so a message is a \<^typ>\<open>string\<close>.  The classes
  below are what \<^verbatim>\<open>str.isspace\<close>, the pattern \<^verbatim>\<open>\s\<close>, the range \<^verbatim>\<open>[A-Z]\<close> and the
  pattern \<^verbatim>\<open>\d\<close> accept among these code points.
\<close>

definition is_space :: "char \<Rightarrow> bool" where
  "is_space c =
     (let n = (of_char c :: nat)
      in (9 \<le> n \<and> n \<le> 13) \<or> (28 \<le> n \<and> n \<le> 32) \<or> n = 133 \<or> n = 160)"

definition is_upper :: "char \<Rightarrow> bool" where
  "is_upper c = (let n = (of_char c :: nat) in 65 \<le> n \<and> n \<le> 90)"

definition is_digit :: "char \<Rightarrow> bool" where
  "is_digit c = (let n = (of_char c :: nat) in 48 \<le> n \<and> n \<le> 57)"

text \<open>\<^verbatim>\<open>s.strip()\<close>: leading and trailing whitespace removed.\<close>

definition strip :: "string \<Rightarrow> string" where
  "strip s = rev (dropWhile is_space (rev (dropWhile is_space s)))"

text \<open>\<^verbatim>\<open>s.replace(old, new)\<close> for one-character \<^verbatim>\<open>old\<close> and \<^verbatim>\<open>new\<close>.\<close>

definition replace :: "char \<Rightarrow> char \<Rightarrow> string \<Rightarrow> string" where
  "replace old new s = map (\<lambda>c. if c = old then new else c) s"

text \<open>
  \<^verbatim>\<open>s.split(sep)\<close> for a non-empty separator: the pieces between the non-overlapping
  occurrences of \<^verbatim>\<open>sep\<close>, found from the left.  The second argument of \<open>split_from\<close>
  holds the current piece, reversed.
\<close>

function split_from :: "string \<Rightarrow> string \<Rightarrow> string \<Rightarrow> string list" where
  "split_from sep cur [] = [rev cur]"
| "split_from sep cur (x # xs) =
     (if sep \<noteq> [] \<and> prefix sep (x # xs)
      then rev cur # split_from sep [] (drop (length sep) (x # xs))
      else split_from sep (x # cur) xs)"
  by pat_completeness auto
termination
  by (relation "measure (\<lambda>(sep, cur, s). length s)") auto

definition split :: "string \<Rightarrow> string \<Rightarrow> string list" where
  "split s sep = split_from sep [] s"

text \<open>The values stored in a record: \<^verbatim>\<open>None\<close>, a string, or a list of strings.\<close>

datatype pyval = PyNone | PyStr string | PyList "string list"

text \<open>
  A \<^verbatim>\<open>dict\<close> with string keys, in insertion order.  \<open>setitem\<close> is \<^verbatim>\<open>d[k] = v\<close>: an
  existing key keeps its place, a new key goes to the end.
\<close>

type_synonym pydict = "(string \<times> pyval) list"

fun setitem :: "string \<Rightarrow> pyval \<Rightarrow> pydict \<Rightarrow> pydict" where
  "setitem k v [] = [(k, v)]"
| "setitem k v ((k', v') # d) = (if k = k' then (k, v) # d else (k', v') # setitem k v d)"

section \<open>Regular expressions\<close>

text \<open>
  The fragment of Python's \<^verbatim>\<open>re\<close> syntax that the six patterns of the module use:
  literal text, one character of a class, a greedy \<^verbatim>\<open>*\<close> or \<^verbatim>\<open>+\<close> over a class, a
  sequence, a capturing group and a positive lookahead \<^verbatim>\<open>(?=...)\<close>.  Every search
  passes \<^verbatim>\<open>re.DOTALL\<close>, so \<^verbatim>\<open>.\<close> is the class \<open>Any\<close>; the inline \<^verbatim>\<open>(?s)\<close> in the
  middle of four patterns sets the same flag again (accepted with a deprecation warning
  up to Python 3.10) and matches nothing itself.
\<close>

datatype cls = Any | Space | Upper | Digit

fun cls_mem :: "cls \<Rightarrow> char \<Rightarrow> bool" where
  "cls_mem Any c = True"
| "cls_mem Space c = is_space c"
| "cls_mem Upper c = is_upper c"
| "cls_mem Digit c = is_digit c"

datatype regex =
    Lit string
  | Cls cls
  | Star cls
  | Plus cls
  | Seq regex regex
  | Grp string regex
  | Ahead regex

text \<open>
  A matcher state is the text still to be read and the groups captured so far.
  \<open>greedy c s\<close> lists the texts that can remain after a greedy repetition of class \<open>c\<close>
  in the order in which a backtracking matcher tries them: the longest repetition
  first, then one character less, down to the empty repetition.
\<close>

type_synonym mstate = "string \<times> (string \<times> string) list"

fun greedy :: "cls \<Rightarrow> string \<Rightarrow> string list" where
  "greedy c [] = [[]]"
| "greedy c (x # xs) = (if cls_mem c x then greedy c xs @ [x # xs] else [x # xs])"

text \<open>
  \<open>ms r st\<close> lists every way in which \<open>r\<close> matches at the start of the text of \<open>st\<close>, in
  the matcher's order of preference; the head of the list is the match that \<^verbatim>\<open>re\<close>
  reports.  A lookahead keeps the position and commits to the first way its body matches.
\<close>

fun ms :: "regex \<Rightarrow> mstate \<Rightarrow> mstate list" where
  "ms (Lit l) (s, g) = (if prefix l s then [(drop (length l) s, g)] else [])"
| "ms (Cls c) (s, g) =
     (case s of [] \<Rightarrow> [] | x # xs \<Rightarrow> if cls_mem c x then [(xs, g)] else [])"
| "ms (Star c) (s, g) = map (\<lambda>t. (t, g)) (greedy c s)"
| "ms (Plus c) (s, g) =
     (case s of [] \<Rightarrow> []
      | x # xs \<Rightarrow> if cls_mem c x then map (\<lambda>t. (t, g)) (greedy c xs) else [])"
| "ms (Seq a b) st = concat (map (ms b) (ms a st))"
| "ms (Grp name r) (s, g) =
     map (\<lambda>(t, g'). (t, (name, take (length s - length t) s) # g')) (ms r (s, g))"
| "ms (Ahead r) (s, g) = (case ms r (s, g) of [] \<Rightarrow> [] | (t, g') # _ \<Rightarrow> [(s, g')])"

text \<open>
  \<^verbatim>\<open>re.search(pattern, s)\<close>: the first position, from the left, at which the pattern
  matches, with the preferred match there; the result is the groups of that match
  (\<^verbatim>\<open>groupdict()\<close>), or \<open>None\<close> when no position matches.
\<close>

fun search :: "regex \<Rightarrow> string \<Rightarrow> (string \<times> string) list option" where
  "search r [] = (case ms r ([], []) of [] \<Rightarrow> None | (t, g) # _ \<Rightarrow> Some g)"
| "search r (x # xs) =
     (case ms r (x # xs, []) of [] \<Rightarrow> search r xs | (t, g) # _ \<Rightarrow> Some g)"

text \<open>
  \<^verbatim>\<open>re.sub(pattern, repl, s)\<close> for a pattern that matches no empty text: every match,
  found from the left and not overlapping the one before, is replaced by \<open>repl\<close>.
\<close>

function sub :: "regex \<Rightarrow> string \<Rightarrow> string \<Rightarrow> string" where
  "sub r repl [] = []"
| "sub r repl (x # xs) =
     (case ms r (x # xs, []) of
        [] \<Rightarrow> x # sub r repl xs
      | (t, g) # _ \<Rightarrow>
          if length t \<le> length xs then repl @ sub r repl t else x # sub r repl xs)"
  by pat_completeness auto
termination
  by (relation "measure (\<lambda>(r, repl, s). length s)") auto

section \<open>Exceptions, the error log and the clock\<close>

text \<open>
  \<open>ParsingError property data parsing_error\<close> is the module's exception class (the
  time stamp it also stores is not modelled); \<open>Error name\<close> is any other exception.
\<close>

datatype exn = ParsingError string string string | Error string

text \<open>
  A call either returns a value (\<open>Inr\<close>) or raises (\<open>Inl\<close>), and it may append to the
  file \<^verbatim>\<open>errors.log\<close>, which is passed in and returned as the list of the exceptions
  handed to \<^verbatim>\<open>logging.exception\<close>.  Opening that file, which four extractors do in
  \<^verbatim>\<open>logging.basicConfig\<close> before their \<^verbatim>\<open>try\<close>, is taken to succeed.
\<close>

type_synonym 'a io = "exn list \<Rightarrow> (exn + 'a) \<times> exn list"

definition return :: "'a \<Rightarrow> 'a io" where
  "return v log = (Inr v, log)"

definition raise :: "exn \<Rightarrow> 'a io" where
  "raise e log = (Inl e, log)"

definition bind :: "'a io \<Rightarrow> ('a \<Rightarrow> 'b io) \<Rightarrow> 'b io" where
  "bind m f log = (case m log of (Inl e, log') \<Rightarrow> (Inl e, log') | (Inr v, log') \<Rightarrow> f v log')"

text \<open>
  \<^verbatim>\<open>try: ... return result\<close> followed by \<^verbatim>\<open>except Exception as err: logging.exception(err)\<close>:
  an exception of the body is logged and the function falls off its end, returning
  \<^verbatim>\<open>None\<close>.
\<close>

definition try_except_log :: "exn + 'a \<Rightarrow> 'a option io" where
  "try_except_log body log =
     (case body of Inr result \<Rightarrow> (Inr (Some result), log) | Inl err \<Rightarrow> (Inr None, log @ [err]))"

text \<open>
  \<^verbatim>\<open>m.groupdict().get(name).strip()\<close>: \<^verbatim>\<open>get\<close> gives \<^verbatim>\<open>None\<close> for a group that is not
  there, and \<^verbatim>\<open>None.strip()\<close> raises \<^verbatim>\<open>AttributeError\<close>.
\<close>

definition get_strip :: "(string \<times> string) list \<Rightarrow> string \<Rightarrow> exn + string" where
  "get_strip groupdict name =
     (case map_of groupdict name of
        None \<Rightarrow> Inl (Error ''AttributeError'')
      | Some text \<Rightarrow> Inr (strip text))"

text \<open>
  What \<^verbatim>\<open>datetime.datetime.today()\<close> returns.  \<open>strftime\<close> is
  \<^verbatim>\<open>strftime("%Y-%m-%d %H:%M:%S")\<close>, each field in decimal, padded with zeros to its
  width.
\<close>

record datetime =
  year :: nat
  month :: nat
  day :: nat
  hour :: nat
  minute :: nat
  second :: nat
  microsecond :: nat

definition digit_char :: "nat \<Rightarrow> char" where
  "digit_char n = char_of (48 + n)"

function dec :: "nat \<Rightarrow> string" where
  "dec n = (if n < 10 then [digit_char n] else dec (n div 10) @ [digit_char (n mod 10)])"
  by pat_completeness auto
termination
  by (relation "measure (\<lambda>n. n)") auto

definition zero_pad :: "nat \<Rightarrow> nat \<Rightarrow> string" where
  "zero_pad w n = replicate (w - length (dec n)) (CHR ''0'') @ dec n"

definition strftime :: "datetime \<Rightarrow> string" where
  "strftime dt =
     zero_pad 4 (year dt) @ ''-'' @ zero_pad 2 (month dt) @ ''-'' @ zero_pad 2 (day dt) @ '' '' @
     zero_pad 2 (hour dt) @ '':'' @ zero_pad 2 (minute dt) @ '':'' @ zero_pad 2 (second dt)"

section \<open>The extractors\<close>

text \<open>\<^verbatim>\<open>r"Call Type (?P<call_type>[A-Z]+\s+\((?s).*\))"\<close>\<close>

definition call_type_re :: regex where
  "call_type_re =
     Seq (Lit ''Call Type '')
       (Grp ''call_type''
          (Seq (Plus Upper) (Seq (Plus Space) (Seq (Lit ''('') (Seq (Star Any) (Lit '')''))))))"

text \<open>\<^verbatim>\<open>r"\s+\)"\<close>\<close>

definition space_paren_re :: regex where
  "space_paren_re = Seq (Plus Space) (Lit '')'')"

definition call_type_try :: "string \<Rightarrow> exn + string" where
  "call_type_try data =
     (case search call_type_re data of
        Some groupdict \<Rightarrow>
          (case get_strip groupdict ''call_type'' of
             Inl err \<Rightarrow> Inl err
           | Inr result \<Rightarrow> Inr (sub space_paren_re '')'' result))
      | None \<Rightarrow> Inl (ParsingError ''call_type'' data ''Insufficient regex''))"

definition call_type_custom_function :: "string \<Rightarrow> string option io" where
  "call_type_custom_function data = try_except_log (call_type_try data)"

text \<open>\<^verbatim>\<open>r"Incident No (?P<number>\d+)"\<close>\<close>

definition number_re :: regex where
  "number_re = Seq (Lit ''Incident No '') (Grp ''number'' (Plus Digit))"

definition incident_number_try :: "string \<Rightarrow> exn + string" where
  "incident_number_try data =
     (case search number_re data of
        Some groupdict \<Rightarrow> get_strip groupdict ''number''
      | None \<Rightarrow> Inl (ParsingError ''number'' data ''Insufficient regex''))"

definition incident_number_custom_function :: "string \<Rightarrow> string option io" where
  "incident_number_custom_function data = try_except_log (incident_number_try data)"

definition coordinates_custom_function :: "string \<Rightarrow> string" where
  "coordinates_custom_function query = ''39.6029,-77.0015''"

text \<open>\<^verbatim>\<open>r"Loc (?P<location>(?s).*(?=City))"\<close>\<close>

definition location_re :: regex where
  "location_re = Seq (Lit ''Loc '') (Grp ''location'' (Seq (Star Any) (Ahead (Lit ''City''))))"

definition location_try :: "string \<Rightarrow> exn + string \<times> string" where
  "location_try data =
     (case search location_re data of
        Some groupdict \<Rightarrow>
          (case get_strip groupdict ''location'' of
             Inl err \<Rightarrow> Inl err
           | Inr result \<Rightarrow>
               (let query = ''1100 Business Parkway S, Westminster, MD 21157'';
                    coordinates = coordinates_custom_function query
                in Inr (result, coordinates)))
      | None \<Rightarrow> Inl (ParsingError ''location'' data ''Insufficient regex''))"

definition location_custom_function :: "string \<Rightarrow> (string \<times> string) option io" where
  "location_custom_function data = try_except_log (location_try data)"

text \<open>\<^verbatim>\<open>r"Units(?P<equipment>(\s(?s).*(?=\*\*\*\sPremise)))"\<close>; the inner group has no name.\<close>

definition equipment_re :: regex where
  "equipment_re =
     Seq (Lit ''Units'')
       (Grp ''equipment''
          (Grp ''2''
             (Seq (Cls Space)
                (Seq (Star Any) (Ahead (Seq (Lit ''***'') (Seq (Cls Space) (Lit ''Premise''))))))))"

definition equipment_try :: "string \<Rightarrow> exn + string list" where
  "equipment_try data =
     (case search equipment_re data of
        Some groupdict \<Rightarrow>
          (case get_strip groupdict ''equipment'' of
             Inl err \<Rightarrow> Inl err
           | Inr result \<Rightarrow>
               (let result = split result '', ''
                in if result = [''''] then Inr [] else Inr result))
      | None \<Rightarrow> Inl (ParsingError ''equipment'' data ''Insufficient regex''))"

definition equipment_custom_function :: "string \<Rightarrow> string list option io" where
  "equipment_custom_function data = try_except_log (equipment_try data)"

text \<open>
  \<open>today\<close> is the outcome of reading the clock inside the \<^verbatim>\<open>try\<close>; the handler raises
  a \<^verbatim>\<open>ParsingError\<close> in place of whatever went wrong.
\<close>

definition time_custom_function :: "exn + datetime \<Rightarrow> string \<Rightarrow> string io" where
  "time_custom_function today data =
     (case today of
        Inr dt \<Rightarrow> return (strftime dt)
      | Inl err \<Rightarrow> raise (ParsingError ''time'' data ''Not specified''))"

text \<open>\<^verbatim>\<open>r"Remarks (?P<remarks>(?s).*(?=Prty))"\<close>; this function has no \<^verbatim>\<open>try\<close>.\<close>

definition remarks_re :: regex where
  "remarks_re = Seq (Lit ''Remarks '') (Grp ''remarks'' (Seq (Star Any) (Ahead (Lit ''Prty''))))"

definition remarks_custom_function :: "string \<Rightarrow> string option io" where
  "remarks_custom_function data =
     (case search remarks_re data of
        Some groupdict \<Rightarrow>
          (case get_strip groupdict ''remarks'' of
             Inl err \<Rightarrow> raise err
           | Inr result \<Rightarrow> return (Some (replace (CHR 0x0A) (CHR '' '') result)))
      | None \<Rightarrow> return None)"

section \<open>The batch pipeline\<close>

text \<open>Python's truth value of \<^verbatim>\<open>None\<close> or a string.\<close>

fun truthy :: "string option \<Rightarrow> bool" where
  "truthy None = False"
| "truthy (Some s) = (s \<noteq> [])"

fun str_val :: "string option \<Rightarrow> pyval" where
  "str_val None = PyNone"
| "str_val (Some s) = PyStr s"

fun list_val :: "string list option \<Rightarrow> pyval" where
  "list_val None = PyNone"
| "list_val (Some l) = PyList l"

text \<open>
  The \<^verbatim>\<open>for\<close> loop of \<^verbatim>\<open>parse_data\<close>.  \<open>clock i\<close> is what reading the clock gives while
  message number \<open>i\<close> is processed; \<open>dict_list\<close> is the list built so far.
\<close>

fun parse_loop :: "(nat \<Rightarrow> exn + datetime) \<Rightarrow> nat \<Rightarrow> string list \<Rightarrow> pydict list \<Rightarrow> pydict list io" where
  "parse_loop clock i [] dict_list = return dict_list"
| "parse_loop clock i (msg # rest) dict_list =
     bind (incident_number_custom_function msg) (\<lambda>number.
     bind (call_type_custom_function msg) (\<lambda>call_type.
     bind (location_custom_function msg) (\<lambda>location_tuple.
     bind (equipment_custom_function msg) (\<lambda>equipment.
     bind (remarks_custom_function msg) (\<lambda>remarks.
     bind (time_custom_function (clock i) msg) (\<lambda>time.
       let formatted_dict = [];
           formatted_dict = setitem ''number'' (str_val number) formatted_dict;
           formatted_dict = setitem ''call_type'' (str_val call_type) formatted_dict;
           formatted_dict =
             (case location_tuple of
                Some (location, coordinates) \<Rightarrow>
                  setitem ''coordinates'' (PyStr coordinates)
                    (setitem ''location'' (PyStr location) formatted_dict)
              | None \<Rightarrow> formatted_dict);
           location = (case location_tuple of Some t \<Rightarrow> Some (fst t) | None \<Rightarrow> None);
           formatted_dict = setitem ''equipment'' (list_val equipment) formatted_dict;
           remarks = (case remarks of None \<Rightarrow> ''None'' | Some r \<Rightarrow> r);
           formatted_dict = setitem ''remarks'' (PyStr remarks) formatted_dict;
           formatted_dict = setitem ''time'' (PyStr time) formatted_dict
       in parse_loop clock (Suc i) rest
            (if truthy number \<and> truthy location \<and> truthy call_type \<and> equipment \<noteq> None
             then dict_list @ [formatted_dict] else dict_list)))))))"

definition parse_data :: "(nat \<Rightarrow> exn + datetime) \<Rightarrow> string list \<Rightarrow> pydict list io" where
  "parse_data clock data = parse_loop clock 0 data []"

section \<open>Notions used to state the properties\<close>

text \<open>
  \<open>returned m\<close> is what the call \<open>m\<close> of an extractor returns when it starts on an empty
  log (\<open>None\<close> also if it raised); the lemmas \<open>extractor_io\<close> below show that an extractor
  returns the same value on every log and only appends to the log.
\<close>

definition returned :: "'a option io \<Rightarrow> 'a option" where
  "returned m = (case fst (m []) of Inr v \<Rightarrow> v | Inl e \<Rightarrow> None)"

definition logged :: "'a io \<Rightarrow> exn list" where
  "logged m = snd (m [])"

text \<open>
  \<open>emitted msg time\<close> is what one round of the loop adds to the output for the message
  \<open>msg\<close> when the time extractor returned \<open>time\<close>: one record or nothing.
\<close>

definition emitted :: "string \<Rightarrow> string \<Rightarrow> pydict list" where
  "emitted msg time =
     (case (returned (incident_number_custom_function msg),
            returned (call_type_custom_function msg),
            returned (location_custom_function msg),
            returned (equipment_custom_function msg)) of
        (Some number, Some call_type, Some (location, coordinates), Some equipment) \<Rightarrow>
          if number \<noteq> [] \<and> location \<noteq> [] \<and> call_type \<noteq> []
          then [[(''number'', PyStr number), (''call_type'', PyStr call_type),
                 (''location'', PyStr location), (''coordinates'', PyStr coordinates),
                 (''equipment'', PyList equipment),
                 (''remarks'',
                    PyStr (case returned (remarks_custom_function msg) of
                             None \<Rightarrow> ''None'' | Some r \<Rightarrow> r)),
                 (''time'', PyStr time)]]
          else []
      | _ \<Rightarrow> [])"

definition msg_log :: "string \<Rightarrow> exn list" where
  "msg_log msg =
     logged (incident_number_custom_function msg) @ logged (call_type_custom_function msg) @
     logged (location_custom_function msg) @ logged (equipment_custom_function msg)"

text \<open>The text at \<open>u\<close> starts with the marker \<^verbatim>\<open>\*\*\*\sPremise\<close>.\<close>

definition premise_at :: "string \<Rightarrow> bool" where
  "premise_at u =
     (prefix ''***'' u \<and>
      (case drop (length ''***'') u of
         [] \<Rightarrow> False
       | x # xs \<Rightarrow> is_space x \<and> prefix ''Premise'' xs))"

text \<open>
  The invariants of the fields of a \<^verbatim>\<open>datetime\<close> object that a time stamp shows, and the
  reading of a time stamp written as
  \<^verbatim>\<open>YYYY-MM-DD HH:MM:SS\<close> (what \<^verbatim>\<open>strptime\<close> with the same format gives on such a
  string): a timestamp with second precision.
\<close>

definition is_leap :: "nat \<Rightarrow> bool" where
  "is_leap y = (y mod 4 = 0 \<and> (y mod 100 \<noteq> 0 \<or> y mod 400 = 0))"

definition days_in_month :: "nat \<Rightarrow> nat \<Rightarrow> nat" where
  "days_in_month y m =
     (if m = 2 then (if is_leap y then 29 else 28)
      else if m = 4 \<or> m = 6 \<or> m = 9 \<or> m = 11 then 30 else 31)"

definition valid_datetime :: "datetime \<Rightarrow> bool" where
  "valid_datetime dt =
     (1 \<le> year dt \<and> year dt \<le> 9999 \<and> 1 \<le> month dt \<and> month dt \<le> 12 \<and>
      1 \<le> day dt \<and> day dt \<le> days_in_month (year dt) (month dt) \<and>
      hour dt < 24 \<and> minute dt < 60 \<and> second dt < 60)"

definition digit_val :: "char \<Rightarrow> nat" where
  "digit_val c = of_char c - 48"

definition decimal :: "string \<Rightarrow> nat" where
  "decimal s = foldl (\<lambda>n c. 10 * n + digit_val c) 0 s"

definition parse_timestamp :: "string \<Rightarrow> datetime option" where
  "parse_timestamp s =
     (let y = take 4 s; m = take 2 (drop 5 s); d = take 2 (drop 8 s);
          h = take 2 (drop 11 s); n = take 2 (drop 14 s); e = take 2 (drop 17 s)
      in if length s = 19 \<and>
            take 1 (drop 4 s) = ''-'' \<and> take 1 (drop 7 s) = ''-'' \<and> take 1 (drop 10 s) = '' '' \<and>
            take 1 (drop 13 s) = '':'' \<and> take 1 (drop 16 s) = '':'' \<and>
            list_all is_digit (y @ m @ d @ h @ n @ e)
         then
           (let dt = \<lparr>year = decimal y, month = decimal m, day = decimal d, hour = decimal h,
                      minute = decimal n, second = decimal e, microsecond = 0\<rparr>
            in if valid_datetime dt then Some dt else None)
         else None)"

section \<open>Sample inputs\<close>

text \<open>
  The message of the end-to-end example, a short complete message, the same message with
  nothing between \<open>Loc \<close> and \<open>City\<close>, with nothing between \<open>Units\<close> and \<open>*** Premise\<close>,
  and without the two equipment markers; a clock reading, and a clock that always shows it.
\<close>

definition example_message :: string where
  "example_message =
     ''Call Type AB (MEDICAL)\<newline>Incident No 12345\<newline>Loc 123 Main St\<newline>City Anywhere\<newline>Units E10, A12 *** Premise\<newline>Remarks patient breathing Prty 1''"

definition short_message :: string where
  "short_message = ''Call Type A (b) Incident No 7 Loc x City Units *** Premise''"

definition empty_location_message :: string where
  "empty_location_message = ''Call Type A (b) Incident No 7 Loc City Units *** Premise''"

definition no_gap_message :: string where
  "no_gap_message = ''Call Type A (b) Incident No 7 Loc x City Units*** Premise''"

definition no_units_message :: string where
  "no_units_message = ''Call Type A (b) Incident No 7 Loc x City''"

definition example_datetime :: datetime where
  "example_datetime =
     \<lparr>year = 2019, month = 3, day = 7, hour = 9, minute = 5, second = 1, microsecond = 123\<rparr>"

definition example_clock :: "nat \<Rightarrow> exn + datetime" where
  "example_clock i = Inr example_datetime"

section \<open>Facts about the matcher\<close>

lemma greedy_Any: "greedy Any s = suffixes s"
  by (induction s) simp_all

lemma search_None_iff: "search r s = None \<longleftrightarrow> (\<forall>t. suffix t s \<longrightarrow> ms r (t, []) = [])"
  by (induction s) (auto simp: suffix_Cons split: list.splits)

lemma search_Some_D:
  "search r s = Some g \<Longrightarrow> \<exists>t u rest. suffix t s \<and> ms r (t, []) = (u, g) # rest"
proof (induction s)
  case Nil
  then show ?case by (auto split: list.splits)
next
  case (Cons x xs)
  show ?case
  proof (cases "ms r (x # xs, [])")
    case Nil
    with Cons.prems have "search r xs = Some g" by simp
    from Cons.IH [OF this] show ?thesis by (auto simp: suffix_Cons)
  next
    case (Cons m rest)
    with Cons.prems have "ms r (x # xs, []) = (fst m, g) # rest"
      by (cases m) simp
    then show ?thesis by blast
  qed
qed

lemma search_first:
  assumes "ms r (t, []) = (u, g) # rest"
    and "\<And>p. p \<noteq> [] \<Longrightarrow> suffix p pre \<Longrightarrow> ms r (p @ t, []) = []"
  shows "search r (pre @ t) = Some g"
  using assms(2)
proof (induction pre)
  case Nil
  show ?case using assms(1) by (cases t) simp_all
next
  case (Cons x pre)
  have "ms r ((x # pre) @ t, []) = []"
    by (rule Cons.prems) simp_all
  moreover have "search r (pre @ t) = Some g"
    by (rule Cons.IH) (simp add: Cons.prems suffix_Cons)
  ultimately show ?case by simp
qed

text \<open>The shortest suffix with a property is the first one that \<open>filter\<close> keeps.\<close>
lemma filter_suffixes_first:
  assumes "P u" and "\<And>v. suffix v u \<Longrightarrow> v \<noteq> u \<Longrightarrow> \<not> P v"
  shows "\<exists>rest. filter P (suffixes (m @ u)) = u # rest"
proof -
  have "filter P (suffixes u) = [u]"
  proof (cases u)
    case Nil
    with assms(1) show ?thesis by simp
  next
    case (Cons x xs)
    have "filter P (suffixes xs) = []"
    proof -
      have "\<not> P v" if "suffix v xs" for v
      proof -
        from that have "length v \<le> length xs" by (rule suffix_length_le)
        then have "v \<noteq> u" by (auto simp: Cons)
        moreover from that have "suffix v u" by (simp add: Cons suffix_Cons)
        ultimately show ?thesis using assms(2) by blast
      qed
      then show ?thesis by (auto simp: filter_empty_conv)
    qed
    with assms(1) show ?thesis by (simp add: Cons)
  qed
  then show ?thesis by (simp add: suffixes_append)
qed

lemma filter_suffixes_Nil_iff: "filter (prefix k) (suffixes s) = [] \<longleftrightarrow> \<not> sublist k s"
  by (auto simp: filter_empty_conv sublist_altdef')

lemma concat_map_if: "concat (map (\<lambda>x. if P x then [f x] else []) xs) = map f (filter P xs)"
  by (induction xs) simp_all

lemma ms_Ahead_Lit: "ms (Ahead (Lit k)) (t, g) = (if prefix k t then [(t, g)] else [])"
  by simp

lemma ms_Star_Any_Ahead:
  "ms (Seq (Star Any) (Ahead a)) (s, g) =
     concat (map (\<lambda>u. ms (Ahead a) (u, g)) (suffixes s))"
  by (simp add: greedy_Any comp_def del: ms.simps(7))

lemma ms_Star_Any_Ahead_Lit:
  "ms (Seq (Star Any) (Ahead (Lit k))) (s, g) = map (\<lambda>u. (u, g)) (filter (prefix k) (suffixes s))"
  unfolding ms_Star_Any_Ahead ms_Ahead_Lit by (rule concat_map_if)

lemma ms_Lit_Seq: "ms (Seq (Lit l) r) (t, g) = (if prefix l t then ms r (drop (length l) t, g) else [])"
  by simp

lemma ms_span:
  "ms (Seq (Lit l) (Grp n (Seq (Star Any) (Ahead (Lit k))))) (t, g) =
     (if prefix l t
      then map (\<lambda>u. (u, (n, take (length t - length l - length u) (drop (length l) t)) # g))
             (filter (prefix k) (suffixes (drop (length l) t)))
      else [])"
  unfolding ms_Lit_Seq ms.simps(6) ms_Star_Any_Ahead_Lit by (simp add: comp_def)

lemma span_no_match_iff:
  "ms (Seq (Lit l) (Grp n (Seq (Star Any) (Ahead (Lit k))))) (t, g) = [] \<longleftrightarrow>
     \<not> (prefix l t \<and> sublist k (drop (length l) t))"
  unfolding ms_span by (simp add: filter_suffixes_Nil_iff)

lemma span_decomp_iff:
  "(\<exists>t. suffix t s \<and> prefix l t \<and> sublist k (drop (length l) t)) \<longleftrightarrow>
   (\<exists>a b c. s = a @ l @ b @ k @ c)"
proof
  assume "\<exists>t. suffix t s \<and> prefix l t \<and> sublist k (drop (length l) t)"
  then obtain t where t: "suffix t s" "prefix l t" "sublist k (drop (length l) t)" by blast
  from t(1) obtain a where "s = a @ t" by (auto simp: suffix_def)
  moreover from t(2) obtain r where "t = l @ r" by (auto simp: prefix_def)
  moreover from t(3) \<open>t = l @ r\<close> obtain b c where "r = b @ k @ c" by (auto simp: sublist_def)
  ultimately show "\<exists>a b c. s = a @ l @ b @ k @ c" by blast
next
  assume "\<exists>a b c. s = a @ l @ b @ k @ c"
  then obtain a b c where s: "s = a @ l @ b @ k @ c" by blast
  have "suffix (l @ b @ k @ c) s" "prefix l (l @ b @ k @ c)"
    "sublist k (drop (length l) (l @ b @ k @ c))"
    by (simp_all add: s suffix_def sublist_def) blast
  then show "\<exists>t. suffix t s \<and> prefix l t \<and> sublist k (drop (length l) t)" by blast
qed

lemma search_span_None_iff:
  "search (Seq (Lit l) (Grp n (Seq (Star Any) (Ahead (Lit k))))) s = None \<longleftrightarrow>
     \<not> (\<exists>a b c. s = a @ l @ b @ k @ c)"
  unfolding search_None_iff span_no_match_iff span_decomp_iff [symmetric] by blast

text \<open>A literal whose first character does not occur in it again cannot overlap itself.\<close>

lemma no_overlap:
  assumes "l \<noteq> []" "hd l \<notin> set (tl l)" "prefix l (p @ l @ r)" "p \<noteq> []"
  shows "length l \<le> length p"
proof (rule ccontr)
  assume "\<not> length l \<le> length p"
  then have lt: "length p < length l" by simp
  from assms(3) obtain zs where eq: "p @ l @ r = l @ zs" by (auto simp: prefix_def)
  have "(p @ l @ r) ! length p = hd l"
    using assms(1) by (simp add: nth_append hd_conv_nth)
  moreover have "(l @ zs) ! length p = l ! length p"
    using lt by (simp add: nth_append)
  ultimately have "l ! length p = hd l" by (simp only: eq)
  moreover have "l ! length p \<in> set (tl l)"
    using lt assms(4) by (cases l; cases p) simp_all
  ultimately show False using assms(2) by simp
qed

lemma first_occurrence:
  assumes "l \<noteq> []" "hd l \<notin> set (tl l)" "\<not> sublist l pre" "p \<noteq> []" "suffix p pre"
  shows "\<not> prefix l (p @ l @ r)"
proof
  assume pr: "prefix l (p @ l @ r)"
  from no_overlap [OF assms(1,2) pr assms(4)] have "length l \<le> length p" .
  with pr have "prefix l p" by (auto simp: prefix_append)
  with assms(5) have "sublist l pre" by (auto simp: sublist_altdef')
  with assms(3) show False by simp
qed

lemma last_occurrence:
  assumes "l \<noteq> []" "hd l \<notin> set (tl l)" "\<not> sublist l post" "suffix v (l @ post)" "v \<noteq> l @ post"
  shows "\<not> prefix l v"
proof
  assume pr: "prefix l v"
  from assms(4) obtain p where p: "l @ post = p @ v" by (auto simp: suffix_def)
  with assms(5) have "p \<noteq> []" by auto
  from pr obtain r where v: "v = l @ r" by (auto simp: prefix_def)
  have "p @ l @ r = l @ post" using p v by simp
  then have "prefix l (p @ l @ r)" by simp
  from no_overlap [OF assms(1,2) this \<open>p \<noteq> []\<close>] have le: "length l \<le> length p" .
  from p have "\<exists>us. l = p @ us \<and> us @ post = v \<or> l @ us = p \<and> post = us @ v"
    by (simp only: append_eq_append_conv2)
  then obtain q where "post = q @ v"
    using le by auto
  with v have "sublist l post" by (auto simp: sublist_def)
  with assms(3) show False by simp
qed

section \<open>One round of the loop\<close>

lemma try_except_log_io:
  "try_except_log b log = (Inr (returned (try_except_log b)), log @ logged (try_except_log b))"
  by (simp add: try_except_log_def returned_def logged_def split: sum.splits)

lemma search_span_groups:
  assumes "search (Seq (Lit l) (Grp n (Seq (Star Any) (Ahead (Lit k))))) s = Some g"
  shows "\<exists>m. g = [(n, m)]"
proof -
  from search_Some_D [OF assms] obtain t u rest where
    "ms (Seq (Lit l) (Grp n (Seq (Star Any) (Ahead (Lit k))))) (t, []) = (u, g) # rest"
    by blast
  then show ?thesis
    unfolding ms_span by (auto split: if_splits simp: map_eq_Cons_conv)
qed

lemma remarks_io:
  "remarks_custom_function data log = (Inr (returned (remarks_custom_function data)), log)"
proof (cases "search remarks_re data")
  case None
  then show ?thesis by (simp add: remarks_custom_function_def returned_def return_def)
next
  case (Some g)
  then obtain m where "g = [(''remarks'', m)]"
    unfolding remarks_re_def by (auto dest: search_span_groups)
  with Some show ?thesis
    by (simp add: remarks_custom_function_def returned_def return_def get_strip_def)
qed

lemma parse_loop_Cons:
  "parse_loop clock i (msg # rest) dict_list log =
     (case clock i of
        Inl err \<Rightarrow> (Inl (ParsingError ''time'' msg ''Not specified''), log @ msg_log msg)
      | Inr dt \<Rightarrow>
          parse_loop clock (Suc i) rest (dict_list @ emitted msg (strftime dt)) (log @ msg_log msg))"
proof -
  have n: "incident_number_custom_function msg log =
      (Inr (returned (incident_number_custom_function msg)),
       log @ logged (incident_number_custom_function msg))" for log
    unfolding incident_number_custom_function_def by (rule try_except_log_io)
  have c: "call_type_custom_function msg log =
      (Inr (returned (call_type_custom_function msg)),
       log @ logged (call_type_custom_function msg))" for log
    unfolding call_type_custom_function_def by (rule try_except_log_io)
  have l: "location_custom_function msg log =
      (Inr (returned (location_custom_function msg)),
       log @ logged (location_custom_function msg))" for log
    unfolding location_custom_function_def by (rule try_except_log_io)
  have e: "equipment_custom_function msg log =
      (Inr (returned (equipment_custom_function msg)),
       log @ logged (equipment_custom_function msg))" for log
    unfolding equipment_custom_function_def by (rule try_except_log_io)
  show ?thesis
    by (simp add: bind_def n c l e remarks_io msg_log_def emitted_def time_custom_function_def
        return_def raise_def Let_def
        split: sum.splits option.splits prod.splits)
qed

section \<open>The values of the number, call type and location extractors\<close>

lemma greedy_hd: "\<exists>rest. greedy c s = dropWhile (cls_mem c) s # rest"
  by (induction s) auto

lemma greedy_suffix: "v \<in> set (greedy c s) \<Longrightarrow> suffix v s"
  by (induction s) (auto simp: suffix_Cons split: if_splits)

lemma ms_suffix: "(u, g') \<in> set (ms r (s, g)) \<Longrightarrow> suffix u s"
proof (induction r arbitrary: s g u g')
  case (Lit l)
  then show ?case by (auto split: if_splits simp: suffix_drop)
next
  case (Cls c)
  then show ?case by (auto split: list.splits if_splits simp: suffix_Cons)
next
  case (Star c)
  then show ?case by (auto dest: greedy_suffix)
next
  case (Plus c)
  then show ?case by (auto split: list.splits if_splits simp: suffix_Cons dest: greedy_suffix)
next
  case (Seq a b)
  from Seq.prems obtain v h where "(v, h) \<in> set (ms a (s, g))" "(u, g') \<in> set (ms b (v, h))"
    by auto
  then show ?case using Seq.IH by (blast intro: suffix_order.trans)
next
  case (Grp n r)
  then show ?case by auto
next
  case (Ahead r)
  then show ?case by (auto split: list.splits)
qed

lemma take_length_dropWhile:
  "take (length xs - length (dropWhile P xs)) xs = takeWhile P xs"
proof -
  have "length xs = length (takeWhile P xs) + length (dropWhile P xs)"
    by (metis length_append takeWhile_dropWhile_id)
  then have "length xs - length (dropWhile P xs) = length (takeWhile P xs)" by simp
  then show ?thesis by (metis append_eq_conv_conj takeWhile_dropWhile_id)
qed

lemma digit_not_space: "is_digit c \<Longrightarrow> \<not> is_space c"
  by (auto simp: is_digit_def is_space_def Let_def)

lemma upper_not_space: "is_upper c \<Longrightarrow> \<not> is_space c"
  by (auto simp: is_upper_def is_space_def Let_def)

lemma strip_Cons: "\<not> is_space x \<Longrightarrow> \<exists>w'. strip (x # w) = x # w'"
proof -
  assume x: "\<not> is_space x"
  have "\<exists>zs. dropWhile is_space (rev w @ [x]) = zs @ [x]"
    using x by (cases "\<forall>y\<in>set (rev w). is_space y") (auto simp: dropWhile_append)
  then obtain zs where "dropWhile is_space (rev w @ [x]) = zs @ [x]" ..
  with x show ?thesis by (simp add: strip_def)
qed

lemma strip_no_space: "\<forall>c\<in>set s. \<not> is_space c \<Longrightarrow> strip s = s"
proof -
  assume a: "\<forall>c\<in>set s. \<not> is_space c"
  then have "dropWhile is_space s = s" by (cases s) simp_all
  moreover from a have "dropWhile is_space (rev s) = rev s" by (cases "rev s") (simp, force)
  ultimately show ?thesis by (simp add: strip_def)
qed

lemma ms_Lit_Grp_hd:
  assumes "ms (Seq (Lit l) (Grp n r)) (t, g0) = (u, g) # rest"
  shows "\<exists>g' rest'. prefix l t \<and> ms r (drop (length l) t, g0) = (u, g') # rest' \<and>
           g = (n, take (length (drop (length l) t) - length u) (drop (length l) t)) # g'"
proof -
  from assms have p: "prefix l t"
    and m: "ms (Grp n r) (drop (length l) t, g0) = (u, g) # rest"
    unfolding ms_Lit_Seq by (auto split: if_splits)
  from m show ?thesis using p by (auto simp: map_eq_Cons_conv)
qed

lemma ms_Lit_Grp_mem:
  assumes "(u, g) \<in> set (ms (Seq (Lit l) (Grp n r)) (t, g0))"
  shows "\<exists>g'. prefix l t \<and> (u, g') \<in> set (ms r (drop (length l) t, g0)) \<and>
           g = (n, take (length (drop (length l) t) - length u) (drop (length l) t)) # g'"
proof -
  from assms have p: "prefix l t"
    and m: "(u, g) \<in> set (ms (Grp n r) (drop (length l) t, g0))"
    unfolding ms_Lit_Seq by (auto split: if_splits)
  from m show ?thesis using p by auto
qed

lemma ms_Plus_hd:
  assumes "ms (Plus c) (s, g0) = (u, g') # rest"
  shows "\<exists>x xs. s = x # xs \<and> cls_mem c x \<and> u = dropWhile (cls_mem c) xs \<and> g' = g0"
proof -
  from assms obtain x xs where s: "s = x # xs" "cls_mem c x"
    and m: "map (\<lambda>t. (t, g0)) (greedy c xs) = (u, g') # rest"
    by (auto split: list.splits if_splits)
  obtain rest' where "greedy c xs = dropWhile (cls_mem c) xs # rest'"
    using greedy_hd [of c xs] by auto
  with m s show ?thesis by simp
qed

lemma cls_mem_Digit: "cls_mem Digit = is_digit"
  by (rule ext) simp

lemma search_number_group:
  assumes "search number_re s = Some g"
  shows "\<exists>x xs. is_digit x \<and> g = [(''number'', x # takeWhile is_digit xs)]"
proof -
  from search_Some_D [OF assms] obtain t u rest where
    m: "ms number_re (t, []) = (u, g) # rest" by blast
  define t' where "t' = drop (length ''Incident No '') t"
  from ms_Lit_Grp_hd [OF m [unfolded number_re_def]] obtain g' rest' where
    p: "ms (Plus Digit) (t', []) = (u, g') # rest'"
    and g: "g = (''number'', take (length t' - length u) t') # g'"
    unfolding t'_def by blast
  from ms_Plus_hd [OF p] obtain x xs where
    x: "t' = x # xs" "is_digit x" "u = dropWhile is_digit xs" "g' = []"
    by (auto simp: cls_mem_Digit)
  have "length t' - length u = Suc (length xs - length (dropWhile is_digit xs))"
    by (simp add: x Suc_diff_le length_dropWhile_le)
  then have "take (length t' - length u) t' = x # takeWhile is_digit xs"
    by (simp add: x(1) x(3) take_length_dropWhile)
  with g x show ?thesis by blast
qed

lemma number_digits:
  assumes "returned (incident_number_custom_function data) = Some number"
  shows "number \<noteq> [] \<and> (\<forall>c\<in>set number. is_digit c)"
proof -
  from assms obtain g where s: "search number_re data = Some g"
    and r: "get_strip g ''number'' = Inr number"
    by (auto simp: returned_def incident_number_custom_function_def try_except_log_def
        incident_number_try_def split: option.splits sum.splits)
  from search_number_group [OF s] obtain x xs where
    x: "is_digit x" and g: "g = [(''number'', x # takeWhile is_digit xs)]" by blast
  have all: "\<forall>c\<in>set (x # takeWhile is_digit xs). is_digit c"
    using x by (auto dest: set_takeWhileD)
  then have "strip (x # takeWhile is_digit xs) = x # takeWhile is_digit xs"
    by (intro strip_no_space) (blast dest: digit_not_space)
  with r g have "number = x # takeWhile is_digit xs" by (simp add: get_strip_def)
  with all show ?thesis by simp
qed

lemma search_call_type_group:
  assumes "search call_type_re s = Some g"
  shows "\<exists>x w g'. is_upper x \<and> g = (''call_type'', x # w) # g'"
proof -
  from search_Some_D [OF assms] obtain t u rest where
    m: "ms call_type_re (t, []) = (u, g) # rest" by blast
  define R2 where "R2 = Seq (Plus Space) (Seq (Lit ''('') (Seq (Star Any) (Lit '')'')))"
  define t' where "t' = drop (length ''Call Type '') t"
  from m have "(u, g) \<in> set (ms call_type_re (t, []))" by simp
  from ms_Lit_Grp_mem [OF this [unfolded call_type_re_def]] obtain g' where
    g: "g = (''call_type'', take (length t' - length u) t') # g'"
    and u: "(u, g') \<in> set (ms (Seq (Plus Upper) R2) (t', []))"
    unfolding R2_def t'_def by blast
  from u have "\<exists>m\<in>set (ms (Plus Upper) (t', [])). (u, g') \<in> set (ms R2 m)"
    by (simp del: ms.simps(4))
  then obtain v h where v: "(v, h) \<in> set (ms (Plus Upper) (t', []))"
    and u2: "(u, g') \<in> set (ms R2 (v, h))" by force
  from v obtain x xs where t: "t' = x # xs" "is_upper x" "v \<in> set (greedy Upper xs)"
    by (auto split: list.splits if_splits)
  from u2 have "suffix u v" by (rule ms_suffix)
  moreover from t(3) have "suffix v xs" by (rule greedy_suffix)
  ultimately have "length u \<le> length xs"
    by (meson suffix_length_le le_trans)
  then have "take (length t' - length u) t' = x # take (length xs - length u) xs"
    by (simp add: t(1) Suc_diff_le)
  with g t(2) show ?thesis by blast
qed

lemma call_type_nonempty:
  assumes "returned (call_type_custom_function data) = Some call_type"
  shows "call_type \<noteq> []"
proof -
  from assms obtain g r where s: "search call_type_re data = Some g"
    and r: "get_strip g ''call_type'' = Inr r" and c: "call_type = sub space_paren_re '')'' r"
    by (auto simp: returned_def call_type_custom_function_def try_except_log_def
        call_type_try_def split: option.splits sum.splits)
  from search_call_type_group [OF s] obtain x w g' where
    x: "is_upper x" and g: "g = (''call_type'', x # w) # g'" by blast
  from x have nx: "\<not> is_space x" by (rule upper_not_space)
  from strip_Cons [OF nx, of w] obtain w' where "strip (x # w) = x # w'" ..
  with r g have "r = x # w'" by (simp add: get_strip_def)
  with c nx show ?thesis by (simp add: space_paren_re_def)
qed

lemma location_coordinates:
  "returned (location_custom_function data) = Some (location, coordinates) \<Longrightarrow>
     coordinates = ''39.6029,-77.0015''"
  by (auto simp: returned_def location_custom_function_def try_except_log_def
      location_try_def coordinates_custom_function_def split: option.splits sum.splits)

section \<open>The records a batch produces\<close>

lemma number_io:
  "incident_number_custom_function msg log =
     (Inr (returned (incident_number_custom_function msg)),
      log @ logged (incident_number_custom_function msg))"
  unfolding incident_number_custom_function_def by (rule try_except_log_io)

lemma call_type_io:
  "call_type_custom_function msg log =
     (Inr (returned (call_type_custom_function msg)),
      log @ logged (call_type_custom_function msg))"
  unfolding call_type_custom_function_def by (rule try_except_log_io)

lemma location_io:
  "location_custom_function msg log =
     (Inr (returned (location_custom_function msg)),
      log @ logged (location_custom_function msg))"
  unfolding location_custom_function_def by (rule try_except_log_io)

lemma equipment_io:
  "equipment_custom_function msg log =
     (Inr (returned (equipment_custom_function msg)),
      log @ logged (equipment_custom_function msg))"
  unfolding equipment_custom_function_def by (rule try_except_log_io)

lemmas extractor_io = number_io call_type_io location_io equipment_io remarks_io

declare parse_loop.simps(2) [simp del]

lemma parse_loop_members:
  "fst (parse_loop clock i msgs dict_list log) = Inr rs \<Longrightarrow> d \<in> set rs \<Longrightarrow>
     d \<in> set dict_list \<or> (\<exists>msg\<in>set msgs. \<exists>time. d \<in> set (emitted msg time))"
proof (induction msgs arbitrary: i dict_list log)
  case Nil
  then show ?case by (simp add: return_def)
next
  case (Cons msg rest)
  from Cons.prems(1) obtain dt where dt: "clock i = Inr dt"
    and r: "fst (parse_loop clock (Suc i) rest (dict_list @ emitted msg (strftime dt))
                   (log @ msg_log msg)) = Inr rs"
    unfolding parse_loop_Cons by (auto split: sum.splits)
  from Cons.IH [OF r Cons.prems(2)] show ?case by auto
qed

lemma parse_data_single:
  "fst (parse_data clock [msg] log) =
     (case clock 0 of
        Inl err \<Rightarrow> Inl (ParsingError ''time'' msg ''Not specified'')
      | Inr dt \<Rightarrow> Inr (emitted msg (strftime dt)))"
  unfolding parse_data_def parse_loop_Cons
  by (simp add: return_def split: sum.splits)

lemma emitted_Some:
  assumes "returned (incident_number_custom_function msg) = Some number"
    and "returned (call_type_custom_function msg) = Some call_type"
    and "returned (location_custom_function msg) = Some (location, coordinates)"
    and "returned (equipment_custom_function msg) = Some equipment"
  shows "emitted msg time =
     (if location \<noteq> []
      then [[(''number'', PyStr number), (''call_type'', PyStr call_type),
             (''location'', PyStr location), (''coordinates'', PyStr coordinates),
             (''equipment'', PyList equipment),
             (''remarks'',
                PyStr (case returned (remarks_custom_function msg) of
                         None \<Rightarrow> ''None'' | Some r \<Rightarrow> r)),
             (''time'', PyStr time)]]
      else [])"
proof -
  from assms(1) have "number \<noteq> []" by (simp add: number_digits)
  moreover from assms(2) have "call_type \<noteq> []" by (rule call_type_nonempty)
  ultimately show ?thesis by (simp add: emitted_def assms)
qed

lemma emitted_None:
  assumes "returned (incident_number_custom_function msg) = None \<or>
           returned (call_type_custom_function msg) = None \<or>
           returned (location_custom_function msg) = None \<or>
           returned (equipment_custom_function msg) = None"
  shows "emitted msg time = []"
  using assms by (auto simp: emitted_def split: option.splits)

lemma emitted_nonempty_D:
  assumes "emitted msg time \<noteq> []"
  obtains number call_type location coordinates equipment where
      "returned (incident_number_custom_function msg) = Some number"
      "returned (call_type_custom_function msg) = Some call_type"
      "returned (location_custom_function msg) = Some (location, coordinates)"
      "returned (equipment_custom_function msg) = Some equipment"
      "location \<noteq> []"
proof -
  from assms have "\<not> (returned (incident_number_custom_function msg) = None \<or>
           returned (call_type_custom_function msg) = None \<or>
           returned (location_custom_function msg) = None \<or>
           returned (equipment_custom_function msg) = None)"
    by (rule contrapos_nn) (rule emitted_None)
  then obtain number call_type lc equipment where v:
    "returned (incident_number_custom_function msg) = Some number"
    "returned (call_type_custom_function msg) = Some call_type"
    "returned (location_custom_function msg) = Some lc"
    "returned (equipment_custom_function msg) = Some equipment"
    by auto
  obtain location coordinates where lc: "lc = (location, coordinates)" by (cases lc)
  from assms have "location \<noteq> []"
    unfolding emitted_Some [OF v(1,2) v(3) [unfolded lc] v(4)] by (simp split: if_splits)
  with v lc that show ?thesis by blast
qed

lemma emitted_member:
  assumes "d \<in> set (emitted msg time)"
  shows "\<exists>number call_type location coordinates equipment remarks.
           returned (incident_number_custom_function msg) = Some number \<and>
           returned (call_type_custom_function msg) = Some call_type \<and>
           returned (location_custom_function msg) = Some (location, coordinates) \<and>
           returned (equipment_custom_function msg) = Some equipment \<and>
           location \<noteq> [] \<and>
           d = [(''number'', PyStr number), (''call_type'', PyStr call_type),
                (''location'', PyStr location), (''coordinates'', PyStr coordinates),
                (''equipment'', PyList equipment), (''remarks'', PyStr remarks),
                (''time'', PyStr time)]"
proof -
  from assms have "emitted msg time \<noteq> []" by auto
  then obtain number call_type location coordinates equipment where v:
      "returned (incident_number_custom_function msg) = Some number"
      "returned (call_type_custom_function msg) = Some call_type"
      "returned (location_custom_function msg) = Some (location, coordinates)"
      "returned (equipment_custom_function msg) = Some equipment"
      and l: "location \<noteq> []"
    by (rule emitted_nonempty_D)
  from assms l have "d = [(''number'', PyStr number), (''call_type'', PyStr call_type),
                (''location'', PyStr location), (''coordinates'', PyStr coordinates),
                (''equipment'', PyList equipment),
                (''remarks'', PyStr (case returned (remarks_custom_function msg) of
                         None \<Rightarrow> ''None'' | Some r \<Rightarrow> r)),
                (''time'', PyStr time)]"
    unfolding emitted_Some [OF v] by simp
  with v l show ?thesis by blast
qed

lemma emitted_nonempty_iff:
  "emitted msg time \<noteq> [] \<longleftrightarrow>
     (\<exists>number call_type location coordinates equipment.
        returned (incident_number_custom_function msg) = Some number \<and>
        returned (call_type_custom_function msg) = Some call_type \<and>
        returned (location_custom_function msg) = Some (location, coordinates) \<and>
        returned (equipment_custom_function msg) = Some equipment \<and> location \<noteq> [])"
proof
  assume "emitted msg time \<noteq> []"
  then show "\<exists>number call_type location coordinates equipment.
        returned (incident_number_custom_function msg) = Some number \<and>
        returned (call_type_custom_function msg) = Some call_type \<and>
        returned (location_custom_function msg) = Some (location, coordinates) \<and>
        returned (equipment_custom_function msg) = Some equipment \<and> location \<noteq> []"
    by (rule emitted_nonempty_D) blast
next
  assume "\<exists>number call_type location coordinates equipment.
        returned (incident_number_custom_function msg) = Some number \<and>
        returned (call_type_custom_function msg) = Some call_type \<and>
        returned (location_custom_function msg) = Some (location, coordinates) \<and>
        returned (equipment_custom_function msg) = Some equipment \<and> location \<noteq> []"
  then obtain number call_type location coordinates equipment where v:
      "returned (incident_number_custom_function msg) = Some number"
      "returned (call_type_custom_function msg) = Some call_type"
      "returned (location_custom_function msg) = Some (location, coordinates)"
      "returned (equipment_custom_function msg) = Some equipment"
      and l: "location \<noteq> []" by blast
  show "emitted msg time \<noteq> []"
    unfolding emitted_Some [OF v] using l by simp
qed

lemma emitted_time_irrelevant:
  "map (filter (\<lambda>kv. fst kv \<noteq> ''time'')) (emitted msg time1) =
   map (filter (\<lambda>kv. fst kv \<noteq> ''time'')) (emitted msg time2)"
proof (cases "emitted msg time1 = []")
  case True
  then have "emitted msg time2 = []"
    using emitted_nonempty_iff [of msg time1] emitted_nonempty_iff [of msg time2] by blast
  with True show ?thesis by simp
next
  case False
  then obtain number call_type location coordinates equipment where v:
      "returned (incident_number_custom_function msg) = Some number"
      "returned (call_type_custom_function msg) = Some call_type"
      "returned (location_custom_function msg) = Some (location, coordinates)"
      "returned (equipment_custom_function msg) = Some equipment"
    by (rule emitted_nonempty_D)
  show ?thesis unfolding emitted_Some [OF v] by simp
qed

lemma parse_loop_two_runs:
  assumes "fst (parse_loop clock1 i1 msgs dl1 log1) = Inr rs1"
    and "fst (parse_loop clock2 i2 msgs dl2 log2) = Inr rs2"
    and "map (filter (\<lambda>kv. fst kv \<noteq> ''time'')) dl1 = map (filter (\<lambda>kv. fst kv \<noteq> ''time'')) dl2"
  shows "map (filter (\<lambda>kv. fst kv \<noteq> ''time'')) rs1 = map (filter (\<lambda>kv. fst kv \<noteq> ''time'')) rs2"
  using assms
proof (induction msgs arbitrary: i1 i2 dl1 dl2 log1 log2)
  case Nil
  then show ?case by (simp add: return_def)
next
  case (Cons msg rest)
  from Cons.prems(1) obtain dt1 where
    r1: "fst (parse_loop clock1 (Suc i1) rest (dl1 @ emitted msg (strftime dt1))
                   (log1 @ msg_log msg)) = Inr rs1"
    unfolding parse_loop_Cons by (auto split: sum.splits)
  from Cons.prems(2) obtain dt2 where
    r2: "fst (parse_loop clock2 (Suc i2) rest (dl2 @ emitted msg (strftime dt2))
                   (log2 @ msg_log msg)) = Inr rs2"
    unfolding parse_loop_Cons by (auto split: sum.splits)
  have "map (filter (\<lambda>kv. fst kv \<noteq> ''time'')) (dl1 @ emitted msg (strftime dt1)) =
        map (filter (\<lambda>kv. fst kv \<noteq> ''time'')) (dl2 @ emitted msg (strftime dt2))"
    using Cons.prems(3) emitted_time_irrelevant [of msg "strftime dt1" "strftime dt2"] by simp
  with r1 r2 show ?case by (rule Cons.IH)
qed

section \<open>Spans between two literal markers\<close>

lemma search_span_Some:
  assumes l: "l \<noteq> []" "hd l \<notin> set (tl l)" and k: "k \<noteq> []" "hd k \<notin> set (tl k)"
    and pre: "\<not> sublist l pre" and post: "\<not> sublist k post"
  shows "search (Seq (Lit l) (Grp n (Seq (Star Any) (Ahead (Lit k))))) (pre @ l @ mid @ k @ post)
           = Some [(n, mid)]"
proof -
  let ?r = "Seq (Lit l) (Grp n (Seq (Star Any) (Ahead (Lit k))))"
  have "\<exists>rest. filter (prefix k) (suffixes (mid @ k @ post)) = (k @ post) # rest"
    by (rule filter_suffixes_first) (simp, rule last_occurrence [OF k post])
  then obtain rest where "filter (prefix k) (suffixes (mid @ k @ post)) = (k @ post) # rest" ..
  then have m: "ms ?r (l @ mid @ k @ post, []) =
      (k @ post, [(n, mid)]) # map (\<lambda>u. (u, [(n, take (length (l @ mid @ k @ post) - length l - length u)
           (drop (length l) (l @ mid @ k @ post)))])) rest"
    unfolding ms_span by simp
  have "search ?r (pre @ (l @ mid @ k @ post)) = Some [(n, mid)]"
  proof (rule search_first [OF m])
    fix p assume "p \<noteq> []" "suffix p pre"
    with l pre have "\<not> prefix l (p @ l @ mid @ k @ post)" by (rule first_occurrence)
    then show "ms ?r (p @ l @ mid @ k @ post, []) = []" unfolding ms_span by simp
  qed
  then show ?thesis by simp
qed

lemma location_None:
  assumes "\<not> (\<exists>a b c. msg = a @ ''Loc '' @ b @ ''City'' @ c)"
  shows "location_custom_function msg log =
           (Inr None, log @ [ParsingError ''location'' msg ''Insufficient regex''])"
proof -
  from assms have "search location_re msg = None"
    unfolding location_re_def search_span_None_iff .
  then show ?thesis
    by (simp add: location_custom_function_def location_try_def try_except_log_def)
qed

lemma location_Some:
  assumes "\<not> sublist ''Loc '' pre" "\<not> sublist ''City'' post"
  shows "location_custom_function (pre @ ''Loc '' @ mid @ ''City'' @ post) log =
           (Inr (Some (strip mid, ''39.6029,-77.0015'')), log)"
proof -
  have "search location_re (pre @ ''Loc '' @ mid @ ''City'' @ post) = Some [(''location'', mid)]"
    unfolding location_re_def by (rule search_span_Some) (simp_all add: assms)
  then show ?thesis
    by (simp add: location_custom_function_def location_try_def try_except_log_def
        get_strip_def coordinates_custom_function_def)
qed

lemma remarks_None:
  assumes "\<not> (\<exists>a b c. msg = a @ ''Remarks '' @ b @ ''Prty'' @ c)"
  shows "remarks_custom_function msg log = (Inr None, log)"
proof -
  from assms have "search remarks_re msg = None"
    unfolding remarks_re_def search_span_None_iff .
  then show ?thesis
    by (simp add: remarks_custom_function_def return_def)
qed

lemma emitted_remarks:
  assumes "d \<in> set (emitted msg time)"
  shows "map_of d ''remarks'' =
    Some (PyStr (case returned (remarks_custom_function msg) of None \<Rightarrow> ''None'' | Some r \<Rightarrow> r))"
proof -
  from assms have "emitted msg time \<noteq> []" by auto
  then obtain number call_type location coordinates equipment where v:
      "returned (incident_number_custom_function msg) = Some number"
      "returned (call_type_custom_function msg) = Some call_type"
      "returned (location_custom_function msg) = Some (location, coordinates)"
      "returned (equipment_custom_function msg) = Some equipment"
    by (rule emitted_nonempty_D)
  from assms show ?thesis
    unfolding emitted_Some [OF v] by (auto split: if_splits)
qed

section \<open>The equipment pattern\<close>

lemma ms_Ahead_premise:
  "ms (Ahead (Seq (Lit ''***'') (Seq (Cls Space) (Lit ''Premise'')))) (u, g) =
     (if premise_at u then [(u, g)] else [])"
  by (simp add: premise_at_def split: list.splits)

lemma ms_Cls_Seq:
  "ms (Seq (Cls c) r) (s, g) =
     (case s of [] \<Rightarrow> [] | x # xs \<Rightarrow> if cls_mem c x then ms r (xs, g) else [])"
  by (simp split: list.splits)

lemma ms_equipment_no: "\<not> prefix ''Units'' t \<Longrightarrow> ms equipment_re (t, []) = []"
  unfolding equipment_re_def ms_Lit_Seq by simp

lemma ms_equipment:
  "ms equipment_re (''Units'' @ t', []) =
     (case t' of
        [] \<Rightarrow> []
      | x # xs \<Rightarrow>
          if is_space x
          then map (\<lambda>u. (u, [(''equipment'', take (length t' - length u) t'),
                             (''2'', take (length t' - length u) t')]))
                 (filter premise_at (suffixes xs))
          else [])"
proof -
  have "ms equipment_re (''Units'' @ t', []) =
      ms (Grp ''equipment'' (Grp ''2'' (Seq (Cls Space) (Seq (Star Any)
            (Ahead (Seq (Lit ''***'') (Seq (Cls Space) (Lit ''Premise''))))))))
        (t', [])"
    unfolding equipment_re_def ms_Lit_Seq by simp
  also have "\<dots> = (case t' of
        [] \<Rightarrow> []
      | x # xs \<Rightarrow>
          if is_space x
          then map (\<lambda>u. (u, [(''equipment'', take (length t' - length u) t'),
                             (''2'', take (length t' - length u) t')]))
                 (filter premise_at (suffixes xs))
          else [])"
    unfolding ms.simps(6) ms_Cls_Seq ms_Star_Any_Ahead ms_Ahead_premise concat_map_if
    by (simp split: list.splits add: comp_def)
  finally show ?thesis .
qed

lemma premise_last:
  assumes "\<not> sublist ''Premise'' post" "suffix v (''*** '' @ ''Premise'' @ post)"
    "v \<noteq> ''*** '' @ ''Premise'' @ post"
  shows "\<not> premise_at v"
proof
  assume pa: "premise_at v"
  then have pv: "prefix ''Premise'' (drop 4 v)"
    by (auto simp: premise_at_def prefix_def split: list.splits)
  from assms(2) obtain p where p: "''*** '' @ ''Premise'' @ post = p @ v"
    by (auto simp: suffix_def)
  with assms(3) have "p \<noteq> []" by auto
  have "v = drop (length p) (''*** '' @ ''Premise'' @ post)" unfolding p by simp
  then have "drop 4 v = drop (length p) (drop 4 (''*** '' @ ''Premise'' @ post))"
    by (simp only: drop_drop add.commute)
  also have "drop 4 (''*** '' @ ''Premise'' @ post) = ''Premise'' @ post" by simp
  finally have dv: "drop 4 v = drop (length p) (''Premise'' @ post)" .
  have "suffix (drop 4 v) (''Premise'' @ post)" unfolding dv by (rule suffix_drop)
  moreover have "drop 4 v \<noteq> ''Premise'' @ post"
  proof
    assume "drop 4 v = ''Premise'' @ post"
    then have "length (drop (length p) (''Premise'' @ post)) = length (''Premise'' @ post)"
      unfolding dv by simp
    with \<open>p \<noteq> []\<close> show False by (cases p) simp_all
  qed
  ultimately have "\<not> prefix ''Premise'' (drop 4 v)"
    by (intro last_occurrence [OF _ _ assms(1)]) simp_all
  with pv show False by simp
qed

lemma strip_spaces: "\<forall>c\<in>set ws. is_space c \<Longrightarrow> strip ws = []"
  by (auto simp: strip_def dest: set_dropWhileD)

lemma search_equipment_None: "\<not> sublist ''Units'' msg \<Longrightarrow> search equipment_re msg = None"
  unfolding search_None_iff
  by (auto intro!: ms_equipment_no simp: sublist_altdef')

lemma search_equipment_empty:
  assumes "ws \<noteq> []" "\<forall>c\<in>set ws. is_space c" "\<not> sublist ''Units'' pre" "\<not> sublist ''Premise'' post"
  shows "search equipment_re (pre @ ''Units'' @ ws @ ''*** Premise'' @ post) =
           Some [(''equipment'', ws), (''2'', ws)]"
proof -
  from assms(1) obtain w ws' where ws: "ws = w # ws'" by (cases ws) auto
  with assms(2) have w: "is_space w" by simp
  let ?M = "''*** '' @ ''Premise'' @ post"
  have "premise_at ?M" by (simp add: premise_at_def is_space_def)
  then have "\<exists>rest. filter premise_at (suffixes (ws' @ ?M)) = ?M # rest"
    by (rule filter_suffixes_first) (rule premise_last [OF assms(4)])
  then obtain rest where f: "filter premise_at (suffixes (ws' @ ?M)) = ?M # rest" ..
  have m: "\<exists>rest'. ms equipment_re (''Units'' @ ws @ ?M, []) =
      (?M, [(''equipment'', ws), (''2'', ws)]) # rest'"
    unfolding ms_equipment ws using w f by simp
  then obtain rest' where m': "ms equipment_re (''Units'' @ ws @ ?M, []) =
      (?M, [(''equipment'', ws), (''2'', ws)]) # rest'" ..
  have "search equipment_re (pre @ (''Units'' @ ws @ ?M)) = Some [(''equipment'', ws), (''2'', ws)]"
  proof (rule search_first [OF m'])
    fix p assume "p \<noteq> []" "suffix p pre"
    with assms(3) have "\<not> prefix ''Units'' (p @ ''Units'' @ ws @ ?M)"
      by (intro first_occurrence) simp_all
    then show "ms equipment_re (p @ ''Units'' @ ws @ ?M, []) = []" by (rule ms_equipment_no)
  qed
  then show ?thesis by simp
qed

lemma equipment_None:
  assumes "\<not> sublist ''Units'' msg"
  shows "equipment_custom_function msg log =
           (Inr None, log @ [ParsingError ''equipment'' msg ''Insufficient regex''])"
  using search_equipment_None [OF assms]
  by (simp add: equipment_custom_function_def equipment_try_def try_except_log_def)

lemma equipment_empty:
  assumes "ws \<noteq> []" "\<forall>c\<in>set ws. is_space c" "\<not> sublist ''Units'' pre" "\<not> sublist ''Premise'' post"
  shows "equipment_custom_function (pre @ ''Units'' @ ws @ ''*** Premise'' @ post) log =
           (Inr (Some []), log)"
proof -
  have "split [] '', '' = [[]]" by (simp add: split_def)
  with search_equipment_empty [OF assms] strip_spaces [OF assms(2)] show ?thesis
    by (simp add: equipment_custom_function_def equipment_try_def try_except_log_def get_strip_def)
qed

section \<open>The extractors on the sample messages\<close>

lemma short_message_values:
  "returned (incident_number_custom_function short_message) = Some ''7''"
  "returned (call_type_custom_function short_message) = Some ''A (b)''"
  "returned (location_custom_function short_message) = Some (''x'', ''39.6029,-77.0015'')"
  "returned (equipment_custom_function short_message) = Some []"
  "returned (remarks_custom_function short_message) = None"
  by code_simp+

lemma returned_eq:
  "fst (incident_number_custom_function msg log) = Inr v \<longleftrightarrow> returned (incident_number_custom_function msg) = v"
  "fst (call_type_custom_function msg log) = Inr v \<longleftrightarrow> returned (call_type_custom_function msg) = v"
  "fst (location_custom_function msg log) = Inr w \<longleftrightarrow> returned (location_custom_function msg) = w"
  "fst (equipment_custom_function msg log) = Inr u \<longleftrightarrow> returned (equipment_custom_function msg) = u"
  "fst (remarks_custom_function msg log) = Inr v \<longleftrightarrow> returned (remarks_custom_function msg) = v"
  by (simp_all add: extractor_io)

lemma example_message_values:
  "returned (incident_number_custom_function example_message) = Some ''12345''"
  "returned (call_type_custom_function example_message) = Some ''AB (MEDICAL)''"
  "returned (location_custom_function example_message) = Some (''123 Main St'', ''39.6029,-77.0015'')"
  "returned (equipment_custom_function example_message) = Some [''E10'', ''A12'']"
  "returned (remarks_custom_function example_message) = Some ''patient breathing''"
  by code_simp+

lemma example_message_log: "msg_log example_message = []"
  by code_simp

lemma try_except_log_cases:
  "(\<exists>v. try_except_log body log = (Inr (Some v), log)) \<or>
   (\<exists>err. try_except_log body log = (Inr None, log @ [err]))"
  by (cases body) (simp_all add: try_except_log_def)

section \<open>Formatting and reading a time stamp\<close>

declare dec.simps [simp del]

lemma digit_val_digit_char: "k < 10 \<Longrightarrow> digit_val (digit_char k) = k"
  by (simp add: digit_val_def digit_char_def)

lemma is_digit_digit_char: "k < 10 \<Longrightarrow> is_digit (digit_char k)"
  by (simp add: is_digit_def digit_char_def)

lemma decimal_snoc: "decimal (xs @ [c]) = 10 * decimal xs + digit_val c"
  by (simp add: decimal_def)

lemma decimal_dec: "decimal (dec n) = n"
proof (induction n rule: dec.induct)
  case (1 n)
  show ?case
  proof (cases "n < 10")
    case True
    then show ?thesis
      by (subst dec.simps) (simp add: decimal_def digit_val_digit_char)
  next
    case False
    with 1 have "decimal (dec (n div 10)) = n div 10" by simp
    with False show ?thesis
      by (subst dec.simps) (simp add: decimal_snoc digit_val_digit_char)
  qed
qed

lemma dec_digits: "list_all is_digit (dec n)"
proof (induction n rule: dec.induct)
  case (1 n)
  show ?case
  proof (cases "n < 10")
    case True
    then show ?thesis by (subst dec.simps) (simp add: is_digit_digit_char)
  next
    case False
    with 1 have "list_all is_digit (dec (n div 10))" by simp
    with False show ?thesis by (subst dec.simps) (simp add: is_digit_digit_char)
  qed
qed

lemma length_dec: "n < 10 ^ k \<Longrightarrow> 0 < k \<Longrightarrow> length (dec n) \<le> k"
proof (induction n arbitrary: k rule: dec.induct)
  case (1 n)
  show ?case
  proof (cases "n < 10")
    case True
    with "1.prems" show ?thesis by (subst dec.simps) simp
  next
    case False
    from "1.prems" obtain j where k: "k = Suc j" by (cases k) auto
    with False "1.prems" have "0 < j" by (cases j) auto
    moreover from "1.prems" k have "n div 10 < 10 ^ j" by (simp add: less_mult_imp_div_less mult.commute)
    ultimately have "length (dec (n div 10)) \<le> j" using False "1.IH" by simp
    with False k show ?thesis by (subst dec.simps) simp
  qed
qed

lemma decimal_zeros: "decimal (replicate k (CHR ''0'') @ s) = decimal s"
proof -
  have "foldl (\<lambda>n c. 10 * n + digit_val c) 0 (replicate k (CHR ''0'')) = 0"
    by (induction k) (simp_all add: digit_val_def)
  then show ?thesis by (simp add: decimal_def)
qed

lemma zero_pad_props:
  assumes "n < 10 ^ w" "0 < w"
  shows "length (zero_pad w n) = w" "decimal (zero_pad w n) = n" "list_all is_digit (zero_pad w n)"
proof -
  from assms have "length (dec n) \<le> w" by (rule length_dec)
  then show "length (zero_pad w n) = w" by (simp add: zero_pad_def)
  show "decimal (zero_pad w n) = n" by (simp add: zero_pad_def decimal_zeros decimal_dec)
  have "is_digit (CHR ''0'')" by (simp add: is_digit_def)
  with dec_digits [of n] show "list_all is_digit (zero_pad w n)"
    by (auto simp: zero_pad_def list_all_iff)
qed

lemma parse_fields:
  assumes "length y = 4" "length m = 2" "length d = 2" "length h = 2" "length n = 2" "length e = 2"
    and "list_all is_digit (y @ m @ d @ h @ n @ e)"
    and "valid_datetime \<lparr>year = decimal y, month = decimal m, day = decimal d, hour = decimal h,
                      minute = decimal n, second = decimal e, microsecond = 0\<rparr>"
  shows "parse_timestamp (y @ ''-'' @ m @ ''-'' @ d @ '' '' @ h @ '':'' @ n @ '':'' @ e) =
    Some \<lparr>year = decimal y, month = decimal m, day = decimal d, hour = decimal h,
                      minute = decimal n, second = decimal e, microsecond = 0\<rparr>"
proof -
  from assms(1) obtain y1 y2 y3 y4 where y: "y = [y1, y2, y3, y4]"
    by (auto simp: numeral_eq_Suc length_Suc_conv)
  from assms(2) obtain m1 m2 where m: "m = [m1, m2]"
    by (auto simp: numeral_eq_Suc length_Suc_conv)
  from assms(3) obtain d1 d2 where d: "d = [d1, d2]"
    by (auto simp: numeral_eq_Suc length_Suc_conv)
  from assms(4) obtain h1 h2 where h: "h = [h1, h2]"
    by (auto simp: numeral_eq_Suc length_Suc_conv)
  from assms(5) obtain n1 n2 where n: "n = [n1, n2]"
    by (auto simp: numeral_eq_Suc length_Suc_conv)
  from assms(6) obtain e1 e2 where e: "e = [e1, e2]"
    by (auto simp: numeral_eq_Suc length_Suc_conv)
  from assms(7,8) show ?thesis
    unfolding y m d h n e parse_timestamp_def by (simp add: Let_def)
qed

lemma strftime_roundtrip:
  assumes "valid_datetime now"
  shows "length (strftime now) = 19"
    and "parse_timestamp (strftime now) = Some (now\<lparr>microsecond := 0\<rparr>)"
proof -
  from assms have b: "year now < 10 ^ 4" "month now < 10 ^ 2" "day now < 10 ^ 2"
    "hour now < 10 ^ 2" "minute now < 10 ^ 2" "second now < 10 ^ 2"
    by (auto simp: valid_datetime_def days_in_month_def split: if_splits)
  note y = zero_pad_props [OF b(1)] and m = zero_pad_props [OF b(2)]
    and d = zero_pad_props [OF b(3)] and h = zero_pad_props [OF b(4)]
    and n = zero_pad_props [OF b(5)] and e = zero_pad_props [OF b(6)]
  show "length (strftime now) = 19"
    by (simp add: strftime_def y(1) m(1) d(1) h(1) n(1) e(1))
  have v: "valid_datetime \<lparr>year = year now, month = month now, day = day now,
      hour = hour now, minute = minute now, second = second now, microsecond = 0\<rparr>"
    using assms by (simp add: valid_datetime_def)
  have "parse_timestamp (strftime now) =
    Some \<lparr>year = decimal (zero_pad 4 (year now)),
      month = decimal (zero_pad 2 (month now)), day = decimal (zero_pad 2 (day now)),
      hour = decimal (zero_pad 2 (hour now)), minute = decimal (zero_pad 2 (minute now)),
      second = decimal (zero_pad 2 (second now)), microsecond = 0\<rparr>"
    unfolding strftime_def
    by (rule parse_fields) (simp_all add: y m d h n e v)
  then show "parse_timestamp (strftime now) = Some (now\<lparr>microsecond := 0\<rparr>)"
    by (simp add: y(2) m(2) d(2) h(2) n(2) e(2))
qed

section \<open>Claims\<close>

text \<open>
  C1.  Every record in the output of \<open>parse_data\<close> comes from a message of the input on
  which the number, call type, location and equipment extractors all returned a value,
  and the record holds all seven fields.  For a single message the record is appended
  exactly when these four return a value and the address is not empty: the equipment may
  be any list, the empty one too, and neither the remarks nor the coordinates take part
  in the test.
\<close>

theorem parse_data_emits_complete_records_only:
  assumes "fst (parse_data clock data log) = Inr dict_list"
  shows "(\<forall>d\<in>set dict_list. \<exists>msg\<in>set data.
            \<exists>number call_type location coordinates equipment remarks time.
              fst (incident_number_custom_function msg log) = Inr (Some number) \<and>
              fst (call_type_custom_function msg log) = Inr (Some call_type) \<and>
              fst (location_custom_function msg log) = Inr (Some (location, coordinates)) \<and>
              fst (equipment_custom_function msg log) = Inr (Some equipment) \<and>
              d = [(''number'', PyStr number), (''call_type'', PyStr call_type),
                   (''location'', PyStr location), (''coordinates'', PyStr coordinates),
                   (''equipment'', PyList equipment), (''remarks'', PyStr remarks),
                   (''time'', PyStr time)]) \<and>
         (\<forall>msg. data = [msg] \<longrightarrow>
            (dict_list \<noteq> [] \<longleftrightarrow>
               (\<exists>number call_type location coordinates equipment.
                  fst (incident_number_custom_function msg log) = Inr (Some number) \<and>
                  fst (call_type_custom_function msg log) = Inr (Some call_type) \<and>
                  fst (location_custom_function msg log) = Inr (Some (location, coordinates)) \<and>
                  fst (equipment_custom_function msg log) = Inr (Some equipment) \<and>
                  location \<noteq> [])))"
proof (intro conjI ballI allI impI)
  fix d assume "d \<in> set dict_list"
  with assms obtain msg time where m: "msg \<in> set data" and "d \<in> set (emitted msg time)"
    unfolding parse_data_def by (auto dest: parse_loop_members)
  from emitted_member [OF this(2)]
  obtain number call_type location coordinates equipment remarks where
    "returned (incident_number_custom_function msg) = Some number"
    "returned (call_type_custom_function msg) = Some call_type"
    "returned (location_custom_function msg) = Some (location, coordinates)"
    "returned (equipment_custom_function msg) = Some equipment"
    "d = [(''number'', PyStr number), (''call_type'', PyStr call_type),
          (''location'', PyStr location), (''coordinates'', PyStr coordinates),
          (''equipment'', PyList equipment), (''remarks'', PyStr remarks),
          (''time'', PyStr time)]"
    by blast
  then show "\<exists>msg\<in>set data. \<exists>number call_type location coordinates equipment remarks time.
              fst (incident_number_custom_function msg log) = Inr (Some number) \<and>
              fst (call_type_custom_function msg log) = Inr (Some call_type) \<and>
              fst (location_custom_function msg log) = Inr (Some (location, coordinates)) \<and>
              fst (equipment_custom_function msg log) = Inr (Some equipment) \<and>
              d = [(''number'', PyStr number), (''call_type'', PyStr call_type),
                   (''location'', PyStr location), (''coordinates'', PyStr coordinates),
                   (''equipment'', PyList equipment), (''remarks'', PyStr remarks),
                   (''time'', PyStr time)]"
    by (intro bexI [OF _ m] exI conjI) (simp_all add: extractor_io)
next
  fix msg assume "data = [msg]"
  with assms obtain dt where "dict_list = emitted msg (strftime dt)"
    by (auto simp: parse_data_single split: sum.splits)
  then show "dict_list \<noteq> [] \<longleftrightarrow>
               (\<exists>number call_type location coordinates equipment.
                  fst (incident_number_custom_function msg log) = Inr (Some number) \<and>
                  fst (call_type_custom_function msg log) = Inr (Some call_type) \<and>
                  fst (location_custom_function msg log) = Inr (Some (location, coordinates)) \<and>
                  fst (equipment_custom_function msg log) = Inr (Some equipment) \<and>
                  location \<noteq> [])"
    by (simp add: emitted_nonempty_iff extractor_io)
qed


theorem parse_data_emits_complete_records_only_witness:
  "\<exists>d. fst (parse_data (\<lambda>i. Inr example_datetime) [short_message] []) = Inr [d] \<and>
     (\<exists>number call_type location coordinates equipment.
        fst (incident_number_custom_function short_message []) = Inr (Some number) \<and>
        fst (call_type_custom_function short_message []) = Inr (Some call_type) \<and>
        fst (location_custom_function short_message []) = Inr (Some (location, coordinates)) \<and>
        fst (equipment_custom_function short_message []) = Inr (Some equipment) \<and>
        location \<noteq> [])"
proof -
  have e: "fst (parse_data (\<lambda>i. Inr example_datetime) [short_message] []) =
      Inr [[(''number'', PyStr ''7''), (''call_type'', PyStr ''A (b)''),
            (''location'', PyStr ''x''), (''coordinates'', PyStr ''39.6029,-77.0015''),
            (''equipment'', PyList []), (''remarks'', PyStr ''None''),
            (''time'', PyStr ''2019-03-07 09:05:01'')]]"
    by code_simp
  from parse_data_emits_complete_records_only [OF e] e show ?thesis by simp
qed

text \<open>
  C2.  The claim lets nothing at all stand between the two markers.  The pattern asks
  for one whitespace character right after \<open>Units\<close>: on a message that is otherwise
  complete and has \<open>Units\<close> directly followed by \<open>*** Premise\<close>, the equipment extractor
  fails and \<open>parse_data\<close> emits nothing.  The span also starts at the first \<open>Units\<close> and,
  being greedy, ends at the last \<open>*** Premise\<close>: a pair of markers with only a space
  between them does not give the empty list when a second \<open>*** Premise\<close> follows or
  another \<open>Units\<close> comes before.
\<close>

theorem units_without_gap_counterexample:
  "no_gap_message = ''Call Type A (b) Incident No 7 Loc x City '' @ ''Units'' @ ''*** Premise'' \<and>
   fst (incident_number_custom_function no_gap_message []) = Inr (Some ''7'') \<and>
   fst (call_type_custom_function no_gap_message []) = Inr (Some ''A (b)'') \<and>
   fst (location_custom_function no_gap_message []) = Inr (Some (''x'', ''39.6029,-77.0015'')) \<and>
   equipment_custom_function no_gap_message [] =
     (Inr None, [ParsingError ''equipment'' no_gap_message ''Insufficient regex'']) \<and>
   fst (parse_data example_clock [no_gap_message] []) = Inr [] \<and>
   equipment_custom_function (''Units'' @ '' '' @ ''*** Premise'' @ '' x *** Premise'') [] =
     (Inr (Some [''*** Premise x'']), []) \<and>
   equipment_custom_function (''Units a '' @ ''Units'' @ '' '' @ ''*** Premise'') [] =
     (Inr (Some [''a Units'']), [])"
  by code_simp

text \<open>
  C2 as amended.  A message without \<open>Units\<close> and without \<open>*** Premise\<close> makes the equipment
  extractor fail, and \<open>parse_data\<close> emits no record for it.  A message whose first
  \<open>Units\<close> is followed by at least one whitespace character and by nothing but
  whitespace up to \<open>*** Premise\<close>, with no further \<open>Premise\<close> after it, gives the empty
  equipment list, and the record is emitted when the number, the call type and a
  non-empty address are found.
\<close>

theorem equipment_markers:
  "(\<not> sublist ''Units'' msg \<and> \<not> sublist ''*** Premise'' msg \<longrightarrow>
      equipment_custom_function msg log =
        (Inr None, log @ [ParsingError ''equipment'' msg ''Insufficient regex'']) \<and>
      (\<forall>dict_list. fst (parse_data clock [msg] log) = Inr dict_list \<longrightarrow> dict_list = [])) \<and>
   (msg' = pre @ ''Units'' @ ws @ ''*** Premise'' @ post \<and>
    ws \<noteq> [] \<and> (\<forall>c\<in>set ws. is_space c) \<and>
    \<not> sublist ''Units'' pre \<and> \<not> sublist ''Premise'' post \<longrightarrow>
      equipment_custom_function msg' log = (Inr (Some []), log) \<and>
      (fst (incident_number_custom_function msg' log) = Inr (Some number) \<and>
       fst (call_type_custom_function msg' log) = Inr (Some call_type) \<and>
       fst (location_custom_function msg' log) = Inr (Some (location, coordinates)) \<and>
       location \<noteq> [] \<and>
       fst (remarks_custom_function msg' log) = Inr remarks \<and>
       clock 0 = Inr dt \<longrightarrow>
         fst (parse_data clock [msg'] log) =
           Inr [[(''number'', PyStr number), (''call_type'', PyStr call_type),
                 (''location'', PyStr location), (''coordinates'', PyStr coordinates),
                 (''equipment'', PyList []),
                 (''remarks'', PyStr (case remarks of None \<Rightarrow> ''None'' | Some r \<Rightarrow> r)),
                 (''time'', PyStr (strftime dt))]]))"
proof (intro conjI impI allI)
  assume a: "\<not> sublist ''Units'' msg \<and> \<not> sublist ''*** Premise'' msg"
  then show e: "equipment_custom_function msg log =
        (Inr None, log @ [ParsingError ''equipment'' msg ''Insufficient regex''])"
    by (simp add: equipment_None)
  fix dict_list assume "fst (parse_data clock [msg] log) = Inr dict_list"
  then obtain dt where d: "dict_list = emitted msg (strftime dt)"
    by (auto simp: parse_data_single split: sum.splits)
  from a have "returned (equipment_custom_function msg) = None"
    using equipment_None [of msg "[]"] by (simp add: returned_def)
  then have "emitted msg (strftime dt) = []" by (simp add: emitted_None)
  with d show "dict_list = []" by simp
next
  assume a: "msg' = pre @ ''Units'' @ ws @ ''*** Premise'' @ post \<and>
    ws \<noteq> [] \<and> (\<forall>c\<in>set ws. is_space c) \<and>
    \<not> sublist ''Units'' pre \<and> \<not> sublist ''Premise'' post"
  then have "equipment_custom_function (pre @ ''Units'' @ ws @ ''*** Premise'' @ post) log =
      (Inr (Some []), log)"
    by (intro equipment_empty) blast+
  with a show e: "equipment_custom_function msg' log = (Inr (Some []), log)"
    by (simp only:)
  assume b: "fst (incident_number_custom_function msg' log) = Inr (Some number) \<and>
       fst (call_type_custom_function msg' log) = Inr (Some call_type) \<and>
       fst (location_custom_function msg' log) = Inr (Some (location, coordinates)) \<and>
       location \<noteq> [] \<and>
       fst (remarks_custom_function msg' log) = Inr remarks \<and>
       clock 0 = Inr dt"
  from e have "fst (equipment_custom_function msg' log) = Inr (Some [])" by simp
  with b have v: "returned (incident_number_custom_function msg') = Some number"
      "returned (call_type_custom_function msg') = Some call_type"
      "returned (location_custom_function msg') = Some (location, coordinates)"
      "returned (equipment_custom_function msg') = Some []"
    by (simp_all add: returned_eq)
  from b show "fst (parse_data clock [msg'] log) =
           Inr [[(''number'', PyStr number), (''call_type'', PyStr call_type),
                 (''location'', PyStr location), (''coordinates'', PyStr coordinates),
                 (''equipment'', PyList []),
                 (''remarks'', PyStr (case remarks of None \<Rightarrow> ''None'' | Some r \<Rightarrow> r)),
                 (''time'', PyStr (strftime dt))]]"
    by (simp add: parse_data_single emitted_Some [OF v] returned_eq)
qed

theorem equipment_markers_witness:
  "equipment_custom_function no_units_message [] =
     (Inr None, [ParsingError ''equipment'' no_units_message ''Insufficient regex'']) \<and>
   fst (parse_data (\<lambda>i. Inr example_datetime) [no_units_message] []) = Inr [] \<and>
   equipment_custom_function
     (''Call Type A (b) Incident No 7 Loc x City '' @ ''Units'' @ '' \<newline> '' @ ''*** Premise'' @ '' 12'') [] =
     (Inr (Some []), []) \<and>
   fst (parse_data (\<lambda>i. Inr example_datetime)
     [''Call Type A (b) Incident No 7 Loc x City '' @ ''Units'' @ '' \<newline> '' @ ''*** Premise'' @ '' 12''] []) =
     Inr [[(''number'', PyStr ''7''), (''call_type'', PyStr ''A (b)''),
           (''location'', PyStr ''x''), (''coordinates'', PyStr ''39.6029,-77.0015''),
           (''equipment'', PyList []), (''remarks'', PyStr ''None''),
           (''time'', PyStr ''2019-03-07 09:05:01'')]]"
proof -
  let ?m = "''Call Type A (b) Incident No 7 Loc x City Units \<newline> *** Premise 12''"
  have h1: "\<not> sublist ''Units'' no_units_message" "\<not> sublist ''*** Premise'' no_units_message"
    by code_simp+
  have p: "\<exists>dict_list. fst (parse_data (\<lambda>i. Inr example_datetime) [no_units_message] []) = Inr dict_list"
    by (simp add: parse_data_single)
  have h2: "\<forall>c\<in>set '' \<newline> ''. is_space c"
    "\<not> sublist ''Units'' ''Call Type A (b) Incident No 7 Loc x City ''"
    "\<not> sublist ''Premise'' '' 12''"
    by code_simp+
  have v: "fst (incident_number_custom_function ?m []) = Inr (Some ''7'')"
    "fst (call_type_custom_function ?m []) = Inr (Some ''A (b)'')"
    "fst (location_custom_function ?m []) = Inr (Some (''x'', ''39.6029,-77.0015''))"
    "fst (remarks_custom_function ?m []) = Inr None"
    by code_simp+
  have t: "strftime example_datetime = ''2019-03-07 09:05:01''" by code_simp
  from equipment_markers [of no_units_message "[]" "\<lambda>i. Inr example_datetime" ?m
      "''Call Type A (b) Incident No 7 Loc x City ''" "'' \<newline> ''" "'' 12''"
      "''7''" "''A (b)''" "''x''" "''39.6029,-77.0015''" None example_datetime]
    h1 p h2 v t
  show ?thesis by auto
qed

text \<open>
  C3.  On a message that contains no text \<open>Remarks \<close> followed somewhere later by \<open>Prty\<close>,
  the remarks extractor returns \<open>None\<close> (it does not raise and logs nothing), and a
  record that \<open>parse_data\<close> emits for the message has the string \<open>None\<close> in its
  \<open>remarks\<close> field.
\<close>

theorem remarks_absent_gives_None:
  assumes "\<not> (\<exists>a b c. msg = a @ ''Remarks '' @ b @ ''Prty'' @ c)"
  shows "remarks_custom_function msg log = (Inr None, log) \<and>
         (\<forall>dict_list. fst (parse_data clock [msg] log) = Inr dict_list \<longrightarrow>
            (\<forall>d\<in>set dict_list. map_of d ''remarks'' = Some (PyStr ''None'')))"
proof (intro conjI allI impI ballI)
  show r: "remarks_custom_function msg log = (Inr None, log)"
    using assms by (rule remarks_None)
  fix dict_list d
  assume "fst (parse_data clock [msg] log) = Inr dict_list" "d \<in> set dict_list"
  then obtain time where "d \<in> set (emitted msg time)"
    by (auto simp: parse_data_single split: sum.splits)
  from emitted_remarks [OF this] have "map_of d ''remarks'' =
    Some (PyStr (case returned (remarks_custom_function msg) of None \<Rightarrow> ''None'' | Some r \<Rightarrow> r))" .
  moreover have "returned (remarks_custom_function msg) = None"
    using remarks_None [OF assms, of "[]"] by (simp add: returned_def)
  ultimately show "map_of d ''remarks'' = Some (PyStr ''None'')" by simp
qed

theorem remarks_absent_gives_None_witness:
  "remarks_custom_function short_message [] = (Inr None, []) \<and>
   (\<exists>d. fst (parse_data (\<lambda>i. Inr example_datetime) [short_message] []) = Inr [d] \<and>
        map_of d ''remarks'' = Some (PyStr ''None''))"
proof -
  have "search remarks_re short_message = None" by code_simp
  then have h: "\<not> (\<exists>a b c. short_message = a @ ''Remarks '' @ b @ ''Prty'' @ c)"
    unfolding remarks_re_def search_span_None_iff .
  have e: "fst (parse_data (\<lambda>i. Inr example_datetime) [short_message] []) =
      Inr [[(''number'', PyStr ''7''), (''call_type'', PyStr ''A (b)''),
            (''location'', PyStr ''x''), (''coordinates'', PyStr ''39.6029,-77.0015''),
            (''equipment'', PyList []), (''remarks'', PyStr ''None''),
            (''time'', PyStr ''2019-03-07 09:05:01'')]]"
    by code_simp
  from remarks_absent_gives_None [OF h, of "[]" "\<lambda>i. Inr example_datetime"] e
  show ?thesis by simp
qed

text \<open>
  C4.  The claim says that the span ends at the first \<open>City\<close> and that letter case
  is ignored.  The pattern's \<^verbatim>\<open>.*\<close> is greedy and the search passes no
  \<^verbatim>\<open>re.IGNORECASE\<close>: with two \<open>City\<close> markers the address runs up to the second, and
  lower-case markers are not found.
\<close>

theorem location_stops_at_first_City_counterexample:
  "location_custom_function ''Loc A City B City'' [] =
     (Inr (Some (''A City B'', ''39.6029,-77.0015'')), []) \<and>
   location_custom_function ''loc A city'' [] =
     (Inr None, [ParsingError ''location'' ''loc A city'' ''Insufficient regex''])"
  by code_simp

text \<open>
  C4 as amended.  The location extractor takes the text between the first \<open>Loc \<close> and
  the last \<open>City\<close> after it (greedy, case-sensitive, across newlines), trims it, and
  returns it paired with the coordinate string \<open>39.6029,-77.0015\<close>; when no \<open>Loc \<close> is followed
  by a \<open>City\<close> it logs a \<open>ParsingError\<close> and returns \<open>None\<close>.
\<close>

theorem location_span:
  "(\<not> sublist ''Loc '' pre \<and> \<not> sublist ''City'' post \<longrightarrow>
      location_custom_function (pre @ ''Loc '' @ mid @ ''City'' @ post) log =
        (Inr (Some (strip mid, ''39.6029,-77.0015'')), log)) \<and>
   (\<not> (\<exists>a b c. msg = a @ ''Loc '' @ b @ ''City'' @ c) \<longrightarrow>
      location_custom_function msg log =
        (Inr None, log @ [ParsingError ''location'' msg ''Insufficient regex'']))"
  using location_Some location_None by blast

theorem location_span_witness:
  "location_custom_function (''Call Type A (b) '' @ ''Loc '' @ '' 12 City Rd\<newline>Old City '' @ ''City'' @ '' X'') [] =
     (Inr (Some (''12 City Rd\<newline>Old City'', ''39.6029,-77.0015'')), []) \<and>
   location_custom_function ''loc A city'' [] =
     (Inr None, [ParsingError ''location'' ''loc A city'' ''Insufficient regex''])"
proof -
  have h1: "\<not> sublist ''Loc '' ''Call Type A (b) ''" "\<not> sublist ''City'' '' X''"
    by (simp_all add: sublist_code)
  have "search location_re ''loc A city'' = None" by code_simp
  then have h2: "\<not> (\<exists>a b c. ''loc A city'' = a @ ''Loc '' @ b @ ''City'' @ c)"
    unfolding location_re_def search_span_None_iff .
  have s: "strip '' 12 City Rd\<newline>Old City '' = ''12 City Rd\<newline>Old City''" by code_simp
  from location_span [of "''Call Type A (b) ''" "'' X''" "'' 12 City Rd\<newline>Old City ''" "[]" "''loc A city''"]
    h1 h2 s
  show ?thesis by simp
qed

text \<open>
  C5.  Whatever the message, the time extractor returns the clock reading formatted as
  \<^verbatim>\<open>YYYY-MM-DD HH:MM:SS\<close> and leaves the log alone; the 19 characters read back as the
  same date and time with the microseconds dropped.  When reading the clock fails, the
  extractor raises a \<open>ParsingError\<close> for the field \<open>time\<close>, and \<open>parse_data\<close> passes it on to
  its caller.
\<close>

theorem time_extractor:
  "time_custom_function (Inr now) data log = (Inr (strftime now), log) \<and>
   (valid_datetime now \<longrightarrow>
      length (strftime now) = 19 \<and>
      parse_timestamp (strftime now) = Some (now\<lparr>microsecond := 0\<rparr>)) \<and>
   time_custom_function (Inl err) data log =
     (Inl (ParsingError ''time'' data ''Not specified''), log) \<and>
   (clock 0 = Inl err \<longrightarrow>
      fst (parse_data clock [data] log) = Inl (ParsingError ''time'' data ''Not specified''))"
  by (simp add: time_custom_function_def return_def raise_def strftime_roundtrip
      parse_data_single)

theorem time_extractor_witness:
  "valid_datetime example_datetime \<and>
   strftime example_datetime = ''2019-03-07 09:05:01'' \<and>
   parse_timestamp ''2019-03-07 09:05:01'' = Some (example_datetime\<lparr>microsecond := 0\<rparr>) \<and>
   fst (parse_data (\<lambda>i. Inl (Error ''OSError'')) [short_message] []) =
     Inl (ParsingError ''time'' short_message ''Not specified'')"
proof -
  have v: "valid_datetime example_datetime" by code_simp
  have s: "strftime example_datetime = ''2019-03-07 09:05:01''" by code_simp
  from time_extractor [of example_datetime short_message "[]" "Error ''OSError''"
      "\<lambda>i. Inl (Error ''OSError'')"] v s
  show ?thesis by simp
qed

text \<open>
  C6.  On the message of the end-to-end example \<open>parse_data\<close> returns the one record
  below, the \<open>time\<close> field holding the formatted clock reading \<open>now\<close>, and logs nothing.
\<close>

theorem example_message_record:
  "parse_data (\<lambda>i. Inr now)
     [''Call Type AB (MEDICAL)\<newline>Incident No 12345\<newline>Loc 123 Main St\<newline>City Anywhere\<newline>Units E10, A12 *** Premise\<newline>Remarks patient breathing Prty 1'']
     log =
   (Inr [[(''number'', PyStr ''12345''), (''call_type'', PyStr ''AB (MEDICAL)''),
          (''location'', PyStr ''123 Main St''), (''coordinates'', PyStr ''39.6029,-77.0015''),
          (''equipment'', PyList [''E10'', ''A12'']), (''remarks'', PyStr ''patient breathing''),
          (''time'', PyStr (strftime now))]],
    log)"
proof -
  have "parse_data (\<lambda>i. Inr now) [example_message] log =
     (Inr (emitted example_message (strftime now)), log @ msg_log example_message)"
    unfolding parse_data_def parse_loop_Cons by (simp add: return_def)
  then show ?thesis
    unfolding emitted_Some [OF example_message_values(1-4)] example_message_values(5)
      example_message_log
    by (simp add: example_message_def)
qed

text \<open>
  C7.  Two runs of \<open>parse_data\<close> on the same messages, whatever the clock shows and
  whatever the log holds, give outputs of the same length that are equal record by
  record once the \<open>time\<close> field is left out.
\<close>

theorem parse_data_twice_differs_in_time_only:
  assumes "fst (parse_data clock1 data log1) = Inr records1"
    and "fst (parse_data clock2 data log2) = Inr records2"
  shows "length records1 = length records2 \<and>
         map (filter (\<lambda>kv. fst kv \<noteq> ''time'')) records1 =
         map (filter (\<lambda>kv. fst kv \<noteq> ''time'')) records2"
proof -
  have m: "map (filter (\<lambda>kv. fst kv \<noteq> ''time'')) records1 =
         map (filter (\<lambda>kv. fst kv \<noteq> ''time'')) records2"
    using assms unfolding parse_data_def by (rule parse_loop_two_runs) simp
  then have "length records1 = length records2" by (rule map_eq_imp_length_eq)
  with m show ?thesis by simp
qed

theorem parse_data_twice_differs_in_time_only_witness:
  "\<exists>d1 d2. fst (parse_data (\<lambda>i. Inr example_datetime) [short_message] []) = Inr [d1] \<and>
     fst (parse_data (\<lambda>i. Inr (example_datetime\<lparr>year := 2020\<rparr>)) [short_message] []) = Inr [d2] \<and>
     d1 \<noteq> d2 \<and>
     filter (\<lambda>kv. fst kv \<noteq> ''time'') d1 = filter (\<lambda>kv. fst kv \<noteq> ''time'') d2"
proof -
  have e1: "fst (parse_data (\<lambda>i. Inr example_datetime) [short_message] []) =
      Inr [[(''number'', PyStr ''7''), (''call_type'', PyStr ''A (b)''),
            (''location'', PyStr ''x''), (''coordinates'', PyStr ''39.6029,-77.0015''),
            (''equipment'', PyList []), (''remarks'', PyStr ''None''),
            (''time'', PyStr ''2019-03-07 09:05:01'')]]"
    by code_simp
  have e2: "fst (parse_data (\<lambda>i. Inr (example_datetime\<lparr>year := 2020\<rparr>)) [short_message] []) =
      Inr [[(''number'', PyStr ''7''), (''call_type'', PyStr ''A (b)''),
            (''location'', PyStr ''x''), (''coordinates'', PyStr ''39.6029,-77.0015''),
            (''equipment'', PyList []), (''remarks'', PyStr ''None''),
            (''time'', PyStr ''2020-03-07 09:05:01'')]]"
    by code_simp
  from parse_data_twice_differs_in_time_only [OF e1 e2] e1 e2 show ?thesis by simp
qed

text \<open>
  C8.  On every string the call type, number, location and equipment extractors return:
  either a value, with the log unchanged, or \<open>None\<close>, with exactly one exception appended
  to the log.  The remarks extractor returns as well, with the log unchanged; it has no
  handler, and the one exception its body could raise (a group missing from a match)
  never occurs.
\<close>

theorem extractors_never_raise:
  "((\<exists>v. call_type_custom_function data log = (Inr (Some v), log)) \<or>
    (\<exists>err. call_type_custom_function data log = (Inr None, log @ [err]))) \<and>
   ((\<exists>v. incident_number_custom_function data log = (Inr (Some v), log)) \<or>
    (\<exists>err. incident_number_custom_function data log = (Inr None, log @ [err]))) \<and>
   ((\<exists>v. location_custom_function data log = (Inr (Some v), log)) \<or>
    (\<exists>err. location_custom_function data log = (Inr None, log @ [err]))) \<and>
   ((\<exists>v. equipment_custom_function data log = (Inr (Some v), log)) \<or>
    (\<exists>err. equipment_custom_function data log = (Inr None, log @ [err]))) \<and>
   (\<exists>v. remarks_custom_function data log = (Inr v, log))"
proof -
  have "\<exists>v. remarks_custom_function data log = (Inr v, log)"
    using remarks_io [of data log] by blast
  then show ?thesis
    unfolding call_type_custom_function_def incident_number_custom_function_def
      location_custom_function_def equipment_custom_function_def
    by (intro conjI try_except_log_cases)
qed

text \<open>
  C9.  When the location extractor succeeds with an empty address (only whitespace
  between \<open>Loc \<close> and \<open>City\<close>), the final test of \<open>parse_data\<close> drops the message.  An
  empty equipment list does not: with the other three fields present and a non-empty
  address the record is emitted, its equipment being the empty list.
\<close>

theorem empty_location_blocks_emission:
  "(fst (location_custom_function msg log) = Inr (Some ([], coordinates)) \<longrightarrow>
      (\<forall>dict_list. fst (parse_data clock [msg] log) = Inr dict_list \<longrightarrow> dict_list = [])) \<and>
   (fst (incident_number_custom_function msg' log) = Inr (Some number) \<and>
    fst (call_type_custom_function msg' log) = Inr (Some call_type) \<and>
    fst (location_custom_function msg' log) = Inr (Some (location, coordinates')) \<and>
    location \<noteq> [] \<and>
    fst (equipment_custom_function msg' log) = Inr (Some []) \<and>
    fst (remarks_custom_function msg' log) = Inr remarks \<and>
    clock 0 = Inr dt \<longrightarrow>
      fst (parse_data clock [msg'] log) =
         Inr [[(''number'', PyStr number), (''call_type'', PyStr call_type),
               (''location'', PyStr location), (''coordinates'', PyStr coordinates'),
               (''equipment'', PyList []),
               (''remarks'', PyStr (case remarks of None \<Rightarrow> ''None'' | Some r \<Rightarrow> r)),
               (''time'', PyStr (strftime dt))]])"
proof (intro conjI impI allI)
  fix dict_list
  assume l: "fst (location_custom_function msg log) = Inr (Some ([], coordinates))"
    and p: "fst (parse_data clock [msg] log) = Inr dict_list"
  from p obtain dt where d: "dict_list = emitted msg (strftime dt)"
    by (auto simp: parse_data_single split: sum.splits)
  from l have "returned (location_custom_function msg) = Some ([], coordinates)"
    by (simp add: returned_eq)
  then have "emitted msg (strftime dt) = []"
    using emitted_nonempty_iff [of msg "strftime dt"] by auto
  with d show "dict_list = []" by simp
next
  assume a: "fst (incident_number_custom_function msg' log) = Inr (Some number) \<and>
    fst (call_type_custom_function msg' log) = Inr (Some call_type) \<and>
    fst (location_custom_function msg' log) = Inr (Some (location, coordinates')) \<and>
    location \<noteq> [] \<and>
    fst (equipment_custom_function msg' log) = Inr (Some []) \<and>
    fst (remarks_custom_function msg' log) = Inr remarks \<and>
    clock 0 = Inr dt"
  then have v: "returned (incident_number_custom_function msg') = Some number"
      "returned (call_type_custom_function msg') = Some call_type"
      "returned (location_custom_function msg') = Some (location, coordinates')"
      "returned (equipment_custom_function msg') = Some []"
    by (simp_all add: returned_eq)
  from a show "fst (parse_data clock [msg'] log) =
         Inr [[(''number'', PyStr number), (''call_type'', PyStr call_type),
               (''location'', PyStr location), (''coordinates'', PyStr coordinates'),
               (''equipment'', PyList []),
               (''remarks'', PyStr (case remarks of None \<Rightarrow> ''None'' | Some r \<Rightarrow> r)),
               (''time'', PyStr (strftime dt))]]"
    by (simp add: parse_data_single emitted_Some [OF v] returned_eq)
qed

theorem empty_location_blocks_emission_witness:
  "fst (location_custom_function empty_location_message []) = Inr (Some ([], ''39.6029,-77.0015'')) \<and>
   fst (equipment_custom_function empty_location_message []) = Inr (Some []) \<and>
   fst (parse_data (\<lambda>i. Inr example_datetime) [empty_location_message] []) = Inr [] \<and>
   fst (parse_data (\<lambda>i. Inr example_datetime) [short_message] []) =
     Inr [[(''number'', PyStr ''7''), (''call_type'', PyStr ''A (b)''),
           (''location'', PyStr ''x''), (''coordinates'', PyStr ''39.6029,-77.0015''),
           (''equipment'', PyList []), (''remarks'', PyStr ''None''),
           (''time'', PyStr ''2019-03-07 09:05:01'')]]"
proof -
  have l: "fst (location_custom_function empty_location_message []) = Inr (Some ([], ''39.6029,-77.0015''))"
    and e: "fst (equipment_custom_function empty_location_message []) = Inr (Some [])"
    by code_simp+
  have p: "\<exists>dict_list. fst (parse_data (\<lambda>i. Inr example_datetime) [empty_location_message] []) = Inr dict_list"
    by (simp add: parse_data_single)
  have t: "strftime example_datetime = ''2019-03-07 09:05:01''" by code_simp
  from empty_location_blocks_emission [of empty_location_message "[]" "''39.6029,-77.0015''"
      "\<lambda>i. Inr example_datetime" short_message "''7''" "''A (b)''" "''x''" "''39.6029,-77.0015''"
      None example_datetime]
    l e p t short_message_values
  show ?thesis
    by (auto simp: returned_eq)
qed

text \<open>
  C10.  Every record in the output of \<open>parse_data\<close> has exactly the seven keys
  \<open>number\<close>, \<open>call_type\<close>, \<open>location\<close>, \<open>coordinates\<close>, \<open>equipment\<close>, \<open>remarks\<close> and
  \<open>time\<close>; its coordinates are the constant \<open>39.6029,-77.0015\<close> and its number is a
  non-empty string of decimal digits.
\<close>

theorem emitted_record_shape:
  assumes "fst (parse_data clock data log) = Inr dict_list" and "d \<in> set dict_list"
  shows "\<exists>number call_type location equipment remarks time.
           d = [(''number'', PyStr number), (''call_type'', PyStr call_type),
                (''location'', PyStr location), (''coordinates'', PyStr ''39.6029,-77.0015''),
                (''equipment'', PyList equipment), (''remarks'', PyStr remarks),
                (''time'', PyStr time)] \<and>
           number \<noteq> [] \<and> (\<forall>c\<in>set number. is_digit c)"
proof -
  from assms obtain msg time where "d \<in> set (emitted msg time)"
    unfolding parse_data_def by (auto dest: parse_loop_members)
  from emitted_member [OF this]
  obtain number call_type location coordinates equipment remarks where v:
    "returned (incident_number_custom_function msg) = Some number"
    "returned (location_custom_function msg) = Some (location, coordinates)"
    and d: "d = [(''number'', PyStr number), (''call_type'', PyStr call_type),
          (''location'', PyStr location), (''coordinates'', PyStr coordinates),
          (''equipment'', PyList equipment), (''remarks'', PyStr remarks),
          (''time'', PyStr time)]"
    by blast
  from v(2) have "coordinates = ''39.6029,-77.0015''" by (rule location_coordinates)
  with d number_digits [OF v(1)] show ?thesis by blast
qed

theorem emitted_record_shape_witness:
  "\<exists>d number call_type location equipment remarks time.
     fst (parse_data (\<lambda>i. Inr example_datetime) [short_message] []) = Inr [d] \<and>
     d = [(''number'', PyStr number), (''call_type'', PyStr call_type),
          (''location'', PyStr location), (''coordinates'', PyStr ''39.6029,-77.0015''),
          (''equipment'', PyList equipment), (''remarks'', PyStr remarks),
          (''time'', PyStr time)] \<and>
     number \<noteq> [] \<and> (\<forall>c\<in>set number. is_digit c)"
proof -
  have e: "fst (parse_data (\<lambda>i. Inr example_datetime) [short_message] []) =
      Inr [[(''number'', PyStr ''7''), (''call_type'', PyStr ''A (b)''),
            (''location'', PyStr ''x''), (''coordinates'', PyStr ''39.6029,-77.0015''),
            (''equipment'', PyList []), (''remarks'', PyStr ''None''),
            (''time'', PyStr ''2019-03-07 09:05:01'')]]"
    by code_simp
  from emitted_record_shape [OF e, of "[(''number'', PyStr ''7''), (''call_type'', PyStr ''A (b)''),
            (''location'', PyStr ''x''), (''coordinates'', PyStr ''39.6029,-77.0015''),
            (''equipment'', PyList []), (''remarks'', PyStr ''None''),
            (''time'', PyStr ''2019-03-07 09:05:01'')]"] e
  show ?thesis by simp
qed

end
